theory Spec2Isabelle
  imports Complex_Main "HOL-Library.Word"
begin

unbundle bit_operations_syntax

section \<open>A shallow embedding of the GIF decoder of imagew-gif.c\<close>

text \<open>
  Conventions of the embedding.
  \<^item> A C \<open>unsigned char\<close> is an \<open>8 word\<close>. The \<open>int\<close>, \<open>unsigned int\<close> and \<open>size_t\<close>
    quantities of the decoder are natural numbers: every one of them is a 16-bit field of
    the file, a count, an index or a flag that stays far below \<open>2^31\<close>. The one product
    that can pass \<open>INT_MAX\<close>, \<open>image_width * image_height\<close>, has its wrap-around written
    out (\<open>int_product_to_size_t\<close>). The only negative value of the source, the \<open>-1\<close>
    returned by \<open>lzw_add_to_dict\<close>, makes that function's result an \<open>int\<close>.
  \<^item> Flags that the source keeps as \<open>int\<close> 0/1 are booleans.
  \<^item> An array embedded in a struct (\<open>rbuf[768]\<close>, \<open>ct[4096]\<close>, the 256 palette entries) is
    a function of its index; an access outside the array is written out as \<open>Fault\<close> where
    the source can reach it. Buffers obtained from the allocator (\<open>pixels\<close>,
    \<open>row_pointers\<close>) are lists, \<open>None\<close> being the null pointer.
  \<^item> Every function takes the structs it mutates and returns them updated.
\<close>

type_synonym byte = "8 word"

subsection \<open>Outcomes\<close>

datatype iwgif_string =
    iws_gif_read_error
  | iws_gif_unsupported
  | iws_gif_no_image
  | iws_gif_decode_error
  | iws_gif_inval_lzw_min
  | iws_gif_not_a_gif

text \<open>
  A function of the source that fails returns 0, after \<open>iw_seterror\<close> with one of the
  strings above (\<open>Reported\<close>) or without any message of its own (\<open>Unreported\<close>: a short
  read, a refused dimension, a failed allocation).
\<close>

datatype error = Unreported | Reported iwgif_string

text \<open>
  \<open>Ok\<close> is a normal return (of 1, where the source returns a status), \<open>Failed\<close> a return
  of 0, \<open>Fault\<close> an execution that leaves the defined behaviour of C (an access outside
  an array or a buffer, a division by zero), \<open>Diverges\<close> an execution that never returns.
\<close>

datatype 'a result = Ok 'a | Failed error | Fault | Diverges

fun bind_result :: "'a result \<Rightarrow> ('a \<Rightarrow> 'b result) \<Rightarrow> 'b result" where
  "bind_result (Ok x) f = f x"
| "bind_result (Failed e) f = Failed e"
| "bind_result Fault f = Fault"
| "bind_result Diverges f = Diverges"

subsection \<open>The structs\<close>

record iw_rgba =
  rgba_r :: byte
  rgba_g :: byte
  rgba_b :: byte
  rgba_a :: byte

text \<open>
  \<open>struct iw_palette\<close>, \<open>struct iw_image\<close> and \<open>struct iw_context\<close> are declared in
  imagew.h, which is not among the sources; the records hold the fields that imagew-gif.c
  uses. The palette has 256 slots (the loop of \<open>iwgif_read_main\<close> that makes them opaque
  writes all of them).
\<close>

record iw_palette =
  num_entries :: nat
  entry :: "nat \<Rightarrow> iw_rgba"

datatype iw_imgtype = IW_IMGTYPE_UNSET | IW_IMGTYPE_RGB | IW_IMGTYPE_RGBA

datatype iw_density = IW_DENSITY_UNSET | IW_DENSITY_UNITS_UNKNOWN

record iw_image =
  imgtype :: iw_imgtype
  bit_depth :: nat
  width :: nat
  height :: nat
  bpr :: nat
  pixels :: "byte list option"
  density_code :: iw_density
  density_x :: real
  density_y :: real

text \<open>
  Modelled from the spec: the collaborators behind \<open>struct iw_context\<close>. The spec has the
  screen dimensions "validated against an externally supplied maximum-dimension policy"
  (\<open>iw_check_image_dimensons\<close>, here \<open>dimensions_ok\<close>) and an "optional background-color
  label sink" (\<open>iw_set_input_bkgd_label\<close>, here \<open>input_bkgd_label\<close>). \<open>alloc_ok n\<close> tells
  whether \<open>iw_malloc\<close> and \<open>iw_malloc_large\<close> grant a request of \<open>n\<close> bytes.
\<close>

record iw_context =
  dimensions_ok :: "nat \<Rightarrow> nat \<Rightarrow> bool"
  alloc_ok :: "nat \<Rightarrow> bool"
  input_bkgd_label :: "(real \<times> real \<times> real) option"

text \<open>
  \<open>iodescr\<close> is the byte source: the bytes of the file that have not been read yet.
\<close>

record iwgifreadcontext =
  iodescr :: "byte list"
  ctx :: iw_context
  img :: iw_image
  screen_width :: nat
  screen_height :: nat
  image_width :: nat
  image_height :: nat
  image_left :: nat
  image_top :: nat
  screen_initialized :: bool
  interlaced :: bool
  bytes_per_pixel :: nat
  has_transparency :: bool
  has_bg_color :: bool
  bg_color_index :: nat
  trans_color_index :: nat
  pixels_set :: nat
  total_npixels :: nat
  row_pointers :: "nat list option"
  colortable :: iw_palette
  rbuf :: "nat \<Rightarrow> byte"

subsection \<open>Reading from the byte source\<close>

text \<open>
  Modelled from the spec: the byte source is "read(buffer, length) \<rightarrow> (success,
  bytes_read); a short read is always fatal". \<open>iwgif_read\<close> is only ever called with
  \<open>rbuf\<close> as its buffer. A read of \<open>buflen\<close> bytes succeeds when that many bytes are
  left; a short read stores what is left and leaves the source empty.
\<close>

definition store_rbuf :: "(nat \<Rightarrow> byte) \<Rightarrow> byte list \<Rightarrow> (nat \<Rightarrow> byte)" where
  "store_rbuf buf bs = (\<lambda>i. if i < length bs then bs ! i else buf i)"

definition iwgif_read :: "iwgifreadcontext \<Rightarrow> nat \<Rightarrow> bool \<times> iwgifreadcontext" where
  "iwgif_read rctx buflen =
     (if length (iodescr rctx) < buflen
      then (False, rctx\<lparr>iodescr := [], rbuf := store_rbuf (rbuf rctx) (iodescr rctx)\<rparr>)
      else (True, rctx\<lparr>iodescr := drop buflen (iodescr rctx),
                       rbuf := store_rbuf (rbuf rctx) (take buflen (iodescr rctx))\<rparr>))"

definition iw_read_uint16le :: "(nat \<Rightarrow> byte) \<Rightarrow> nat \<Rightarrow> nat" where
  "iw_read_uint16le buf off = unat (buf off) OR push_bit 8 (unat (buf (off + 1)))"

subsection \<open>Recording a pixel\<close>

text \<open>
  \<open>iwgif_record_pixel\<close>. The source divides by \<open>image_width\<close> and indexes
  \<open>row_pointers\<close> and the canvas without a check of its own: a zero width, a row beyond
  the row table and a write beyond the canvas are \<open>Fault\<close>.
\<close>

definition iwgif_record_pixel ::
  "iwgifreadcontext \<Rightarrow> nat \<Rightarrow> nat \<Rightarrow> iwgifreadcontext result" where
  "iwgif_record_pixel rctx coloridx offset =
     (let pixnum = pixels_set rctx + offset in
      if image_width rctx = 0 then Fault
      else
        let xi = pixnum mod image_width rctx;
            yi = pixnum div image_width rctx;
            xs = image_left rctx + xi;
            ys = image_top rctx + yi
        in
        if xs \<ge> screen_width rctx \<or> ys \<ge> screen_height rctx then Ok rctx
        else if coloridx < num_entries (colortable rctx) then
          (case row_pointers rctx of
             None \<Rightarrow> Fault
           | Some rp \<Rightarrow>
               if yi \<ge> length rp then Fault
               else
                 (case pixels (img rctx) of
                    None \<Rightarrow> Fault
                  | Some px \<Rightarrow>
                      let c = entry (colortable rctx) coloridx;
                          p = rp ! yi + bytes_per_pixel rctx * xi;
                          rgba = (imgtype (img rctx) = IW_IMGTYPE_RGBA)
                      in
                      if p + (if rgba then 4 else 3) > length px then Fault
                      else
                        let px3 = px[p := rgba_r c, p + 1 := rgba_g c, p + 2 := rgba_b c];
                            px4 = (if rgba then px3[p + 3 := rgba_a c] else px3)
                        in Ok (rctx\<lparr>img := (img rctx)\<lparr>pixels := Some px4\<rparr>\<rparr>)))
        else Ok rctx)"

subsection \<open>The LZW decoder\<close>

record lzw_tableentry =
  reference :: nat
  length_t :: nat
  value_t :: byte
  firstchar :: byte

record lzwdeccontext =
  root_codesize :: nat
  current_codesize :: nat
  eoi_flag :: bool
  oldcode :: nat
  pending_code :: nat
  bits_in_pending_code :: nat
  num_root_codes :: nat
  ncodes_since_clear :: nat
  clear_code :: nat
  eoi_code :: nat
  ct_used :: nat
  ct :: "nat \<Rightarrow> lzw_tableentry"

definition zero_entry :: lzw_tableentry where
  "zero_entry = \<lparr>reference = 0, length_t = 0, value_t = 0, firstchar = 0\<rparr>"

text \<open>
  A loop \<open>for(i=0;i<n;i++) a[i] = g(i, a[i])\<close> over an array is a fold over \<open>[0..<n]\<close>; it
  changes the first \<open>n\<close> slots, each from its own old value.
\<close>

lemma fold_upd_upt:
  "fold (\<lambda>i e. e(i := g i (e i))) [0..<n] e0 = (\<lambda>i. if i < n then g i (e0 i) else e0 i)"
  by (induction n) (auto simp: fun_eq_iff)

text \<open>\<open>lzw_init\<close>: the \<open>memset\<close>, then the fields and the loop over the root codes.\<close>

definition lzw_init_entry :: "nat \<Rightarrow> lzw_tableentry" where
  "lzw_init_entry i =
     \<lparr>reference = 0, length_t = 0, value_t = of_nat i, firstchar = of_nat i\<rparr>"

definition lzw_init_table :: "nat \<Rightarrow> nat \<Rightarrow> lzw_tableentry" where
  "lzw_init_table n = fold (\<lambda>i t. t(i := lzw_init_entry i)) [0..<n] (\<lambda>i. zero_entry)"

lemma lzw_init_table_apply:
  "lzw_init_table n i = (if i < n then lzw_init_entry i else zero_entry)"
  unfolding lzw_init_table_def
  using fold_upd_upt [where g = "\<lambda>i x. lzw_init_entry i" and n = n and ?e0.0 = "\<lambda>i. zero_entry"]
  by simp

definition lzw_init :: "nat \<Rightarrow> lzwdeccontext" where
  "lzw_init rcs =
     \<lparr>root_codesize = rcs, current_codesize = 0, eoi_flag = False, oldcode = 0,
      pending_code = 0, bits_in_pending_code = 0, num_root_codes = 2 ^ rcs,
      ncodes_since_clear = 0, clear_code = 2 ^ rcs, eoi_code = 2 ^ rcs + 1, ct_used = 0,
      ct = lzw_init_table (2 ^ rcs)\<rparr>"

definition lzw_clear :: "lzwdeccontext \<Rightarrow> lzwdeccontext" where
  "lzw_clear d =
     d\<lparr>ct_used := num_root_codes d + 2, current_codesize := root_codesize d + 1,
       ncodes_since_clear := 0, oldcode := 0\<rparr>"

text \<open>
  The loop of \<open>lzw_emit_code\<close> follows the \<open>reference\<close> fields until it meets an entry of
  length 0. Nothing in the loop bounds the walk, so the loop is a partial function:
  \<open>None\<close> is the walk that never ends.
\<close>

partial_function (option) lzw_emit_loop ::
  "iwgifreadcontext \<Rightarrow> lzwdeccontext \<Rightarrow> nat \<Rightarrow> iwgifreadcontext result option" where
  "lzw_emit_loop rctx d code =
     (if code \<ge> 4096 then Some Fault
      else
        (case iwgif_record_pixel rctx (unat (value_t (ct d code))) (length_t (ct d code)) of
           Ok rctx' \<Rightarrow>
             if length_t (ct d code) < 1 then Some (Ok rctx')
             else lzw_emit_loop rctx' d (reference (ct d code))
         | Failed e \<Rightarrow> Some (Failed e)
         | Fault \<Rightarrow> Some Fault
         | Diverges \<Rightarrow> Some Diverges))"

declare lzw_emit_loop.simps [code]

definition lzw_emit_code ::
  "iwgifreadcontext \<Rightarrow> lzwdeccontext \<Rightarrow> nat \<Rightarrow> iwgifreadcontext result" where
  "lzw_emit_code rctx d first_code =
     (case lzw_emit_loop rctx d first_code of
        None \<Rightarrow> Diverges
      | Some res \<Rightarrow>
          bind_result res (\<lambda>rctx'.
            Ok (rctx'\<lparr>pixels_set := pixels_set rctx' + length_t (ct d first_code) + 1\<rparr>)))"

text \<open>
  \<open>lzw_add_to_dict\<close> returns the position of the new entry, or \<open>-1\<close> when the table is
  full. It reads \<open>ct[oldcode]\<close>, which is outside the table for \<open>oldcode \<ge> 4096\<close>.
\<close>

definition lzw_add_to_dict ::
  "lzwdeccontext \<Rightarrow> nat \<Rightarrow> byte \<Rightarrow> (int \<times> lzwdeccontext) result" where
  "lzw_add_to_dict d oldc val =
     (if ct_used d \<ge> 4096 then Ok (- 1, d)
      else if oldc \<ge> 4096 then Fault
      else
        let newpos = ct_used d;
            e = \<lparr>reference = oldc, length_t = length_t (ct d oldc) + 1, value_t = val,
                 firstchar = firstchar (ct d oldc)\<rparr>;
            d1 = d\<lparr>ct_used := ct_used d + 1, ct := (ct d)(newpos := e)\<rparr>;
            d2 = (if newpos \<in> {7, 15, 31, 63, 127, 255, 511, 1023, 2047}
                  then d1\<lparr>current_codesize := current_codesize d1 + 1\<rparr> else d1)
        in Ok (int newpos, d2))"

definition lzw_process_code ::
  "iwgifreadcontext \<Rightarrow> lzwdeccontext \<Rightarrow> nat \<Rightarrow> (iwgifreadcontext \<times> lzwdeccontext) result" where
  "lzw_process_code rctx d code =
     (if code = eoi_code d then Ok (rctx, d\<lparr>eoi_flag := True\<rparr>)
      else if code = clear_code d then Ok (rctx, lzw_clear d)
      else
        let d1 = d\<lparr>ncodes_since_clear := ncodes_since_clear d + 1\<rparr> in
        if ncodes_since_clear d1 = 1 then
          bind_result (lzw_emit_code rctx d1 code) (\<lambda>rctx'.
            Ok (rctx', d1\<lparr>oldcode := code\<rparr>))
        else if code < ct_used d1 then
          bind_result (lzw_emit_code rctx d1 code) (\<lambda>rctx'.
          bind_result (lzw_add_to_dict d1 (oldcode d1) (firstchar (ct d1 code))) (\<lambda>(newpos, d2).
            Ok (rctx', d2\<lparr>oldcode := code\<rparr>)))
        else if oldcode d1 \<ge> ct_used d1 then Failed (Reported iws_gif_decode_error)
        else
          bind_result (lzw_add_to_dict d1 (oldcode d1) (firstchar (ct d1 (oldcode d1))))
            (\<lambda>(newpos, d2).
          bind_result (if newpos \<ge> 0 then lzw_emit_code rctx d2 (nat newpos) else Ok rctx)
            (\<lambda>rctx'.
            Ok (rctx', d2\<lparr>oldcode := code\<rparr>))))"

text \<open>
  \<open>lzw_process_bytes\<close> looks at the bits of the data one at a time. \<open>lzw_process_bit\<close> is
  the body of the inner loop after its test of \<open>eoi_flag\<close>; \<open>lzw_process_bits\<close> is the inner
  loop over the bit positions that are left in the current byte, and returns \<open>True\<close> when
  it left through the \<open>goto done\<close> of the \<open>eoi_flag\<close> test.
\<close>

definition bitmasks :: "byte list" where
  "bitmasks = [1, 2, 4, 8, 16, 32, 64, 128]"

definition lzw_process_bit ::
  "iwgifreadcontext \<Rightarrow> lzwdeccontext \<Rightarrow> byte \<Rightarrow> nat \<Rightarrow> (iwgifreadcontext \<times> lzwdeccontext) result" where
  "lzw_process_bit rctx d x b =
     (let d1 = (if x AND (bitmasks ! b) \<noteq> 0
                then d\<lparr>pending_code := pending_code d OR push_bit (bits_in_pending_code d) 1\<rparr>
                else d);
          d2 = d1\<lparr>bits_in_pending_code := bits_in_pending_code d1 + 1\<rparr>
      in
      if bits_in_pending_code d2 \<ge> current_codesize d2 then
        bind_result (lzw_process_code rctx d2 (pending_code d2)) (\<lambda>(rctx', d3).
          Ok (rctx', d3\<lparr>pending_code := 0, bits_in_pending_code := 0\<rparr>))
      else Ok (rctx, d2))"

fun lzw_process_bits ::
  "iwgifreadcontext \<Rightarrow> lzwdeccontext \<Rightarrow> byte \<Rightarrow> nat list \<Rightarrow>
     (bool \<times> iwgifreadcontext \<times> lzwdeccontext) result" where
  "lzw_process_bits rctx d x [] = Ok (False, rctx, d)"
| "lzw_process_bits rctx d x (b # bs) =
     (if eoi_flag d then Ok (True, rctx, d)
      else
        (case lzw_process_bit rctx d x b of
           Ok (rctx', d') \<Rightarrow> lzw_process_bits rctx' d' x bs
         | Failed e \<Rightarrow> Failed e
         | Fault \<Rightarrow> Fault
         | Diverges \<Rightarrow> Diverges))"

fun lzw_process_bytes ::
  "iwgifreadcontext \<Rightarrow> lzwdeccontext \<Rightarrow> byte list \<Rightarrow> (iwgifreadcontext \<times> lzwdeccontext) result" where
  "lzw_process_bytes rctx d [] = Ok (rctx, d)"
| "lzw_process_bytes rctx d (x # xs) =
     (case lzw_process_bits rctx d x [0..<8] of
        Ok (stop, rctx', d') \<Rightarrow> if stop then Ok (rctx', d') else lzw_process_bytes rctx' d' xs
      | Failed e \<Rightarrow> Failed e
      | Fault \<Rightarrow> Fault
      | Diverges \<Rightarrow> Diverges)"

subsection \<open>The container parser\<close>

definition iwgif_read_file_header :: "iwgifreadcontext \<Rightarrow> iwgifreadcontext result" where
  "iwgif_read_file_header rctx =
     (let (ok, r1) = iwgif_read rctx 6 in
      if \<not> ok then Failed Unreported
      else if rbuf r1 0 \<noteq> 0x47 \<or> rbuf r1 1 \<noteq> 0x49 \<or> rbuf r1 2 \<noteq> 0x46
        then Failed (Reported iws_gif_not_a_gif)
      else Ok r1)"

definition iwgif_read_screen_descriptor :: "iwgifreadcontext \<Rightarrow> iwgifreadcontext result" where
  "iwgif_read_screen_descriptor rctx =
     (let (ok, r1) = iwgif_read rctx 7 in
      if \<not> ok then Failed Unreported
      else
        let r2 = r1\<lparr>screen_width := iw_read_uint16le (rbuf r1) 0,
                    screen_height := iw_read_uint16le (rbuf r1) 2\<rparr>
        in
        if \<not> dimensions_ok (ctx r2) (screen_width r2) (screen_height r2) then Failed Unreported
        else
          let r3 = r2\<lparr>img := (img r2)\<lparr>width := screen_width r2, height := screen_height r2\<rparr>\<rparr>;
              has_global_ct = (drop_bit 7 (rbuf r3 4) AND 1 \<noteq> 0);
              r4 = (if has_global_ct
                    then r3\<lparr>colortable := (colortable r3)
                            \<lparr>num_entries := push_bit (1 + unat (rbuf r3 4 AND 7)) 1\<rparr>\<rparr>
                    else r3);
              r5 = (if has_global_ct
                    then
                      let r = r4\<lparr>bg_color_index := unat (rbuf r4 5)\<rparr> in
                      if bg_color_index r < num_entries (colortable r)
                      then r\<lparr>has_bg_color := True\<rparr> else r
                    else r4);
              aspect_ratio_code = unat (rbuf r5 6);
              r6 = (if aspect_ratio_code \<noteq> 0
                    then r5\<lparr>img := (img r5)
                            \<lparr>density_code := IW_DENSITY_UNITS_UNKNOWN,
                             density_x := 64000 / real (aspect_ratio_code + 15),
                             density_y := 1000\<rparr>\<rparr>
                    else r5)
          in Ok r6)"

text \<open>
  \<open>iwgif_read_color_table\<close>, always called on the context's own \<open>colortable\<close>.
  \<open>read_color_entries\<close> is its loop over the entries.
\<close>

definition read_color_entries :: "(nat \<Rightarrow> byte) \<Rightarrow> nat \<Rightarrow> (nat \<Rightarrow> iw_rgba) \<Rightarrow> (nat \<Rightarrow> iw_rgba)" where
  "read_color_entries buf n e0 =
     fold (\<lambda>i e. e(i := (e i)\<lparr>rgba_r := buf (3 * i), rgba_g := buf (3 * i + 1),
                            rgba_b := buf (3 * i + 2)\<rparr>)) [0..<n] e0"

lemma read_color_entries_apply:
  "read_color_entries buf n e0 i =
     (if i < n
      then (e0 i)\<lparr>rgba_r := buf (3 * i), rgba_g := buf (3 * i + 1), rgba_b := buf (3 * i + 2)\<rparr>
      else e0 i)"
  unfolding read_color_entries_def
  using fold_upd_upt [where g = "\<lambda>i x. x\<lparr>rgba_r := buf (3 * i), rgba_g := buf (3 * i + 1),
      rgba_b := buf (3 * i + 2)\<rparr>" and n = n and ?e0.0 = e0]
  by simp

definition iwgif_read_color_table :: "iwgifreadcontext \<Rightarrow> iwgifreadcontext result" where
  "iwgif_read_color_table rctx =
     (if num_entries (colortable rctx) < 1 then Ok rctx
      else
        let (ok, r1) = iwgif_read rctx (3 * num_entries (colortable rctx)) in
        if \<not> ok then Failed Unreported
        else
          Ok (r1\<lparr>colortable := (colortable r1)
                \<lparr>entry := read_color_entries (rbuf r1) (num_entries (colortable r1))
                             (entry (colortable r1))\<rparr>\<rparr>))"

lemma iwgif_read_length:
  "iwgif_read rctx n = (True, r1) \<Longrightarrow> length (iodescr r1) + n = length (iodescr rctx)"
  by (auto simp: iwgif_read_def split: if_splits)

function iwgif_skip_subblocks :: "iwgifreadcontext \<Rightarrow> iwgifreadcontext result" where
  "iwgif_skip_subblocks rctx =
     (case iwgif_read rctx 1 of
        (False, r1) \<Rightarrow> Failed Unreported
      | (True, r1) \<Rightarrow>
          if rbuf r1 0 = 0 then Ok r1
          else
            (case iwgif_read r1 (unat (rbuf r1 0)) of
               (False, r2) \<Rightarrow> Failed Unreported
             | (True, r2) \<Rightarrow> iwgif_skip_subblocks r2))"
  by pat_completeness auto
termination
  by (relation "measure (\<lambda>rctx. length (iodescr rctx))")
     (auto dest!: iwgif_read_length iwgif_read_length [OF sym])

declare iwgif_skip_subblocks.simps [simp del]





definition strip_pixels :: "iwgifreadcontext \<Rightarrow> iwgifreadcontext" where
  "strip_pixels r = r\<lparr>img := (img r)\<lparr>pixels := None\<rparr>, pixels_set := 0\<rparr>"

definition frame_eq :: "iwgifreadcontext \<Rightarrow> iwgifreadcontext \<Rightarrow> bool" where
  "frame_eq r r' \<longleftrightarrow> strip_pixels r' = strip_pixels r"

lemma frame_eq_refl: "frame_eq r r"
  by (simp add: frame_eq_def)

lemma frame_eq_trans: "frame_eq r r' \<Longrightarrow> frame_eq r' r'' \<Longrightarrow> frame_eq r r''"
  by (simp add: frame_eq_def)

lemma iwgif_record_pixel_frame:
  "iwgif_record_pixel rctx c off = Ok r' \<Longrightarrow> frame_eq rctx r'"
  unfolding iwgif_record_pixel_def Let_def frame_eq_def strip_pixels_def
  by (auto split: if_splits option.splits)


lemma lzw_emit_loop_invariant_aux:
  assumes step: "\<And>r c off r1. I r \<Longrightarrow> iwgif_record_pixel r c off = Ok r1 \<Longrightarrow> I r1"
  shows "lzw_emit_loop rctx d code = Some res \<Longrightarrow> \<forall>r'. I rctx \<longrightarrow> res = Ok r' \<longrightarrow> I r'"
  apply (rule lzw_emit_loop.raw_induct
      [where P = "\<lambda>rctx d code res. \<forall>r'. I rctx \<longrightarrow> res = Ok r' \<longrightarrow> I r'"])
   prefer 2 apply assumption
  apply (auto split: if_splits result.splits dest: step)
  done

lemma lzw_emit_loop_invariant:
  assumes "lzw_emit_loop rctx d code = Some (Ok r')" and "I rctx"
    and "\<And>r c off r1. I r \<Longrightarrow> iwgif_record_pixel r c off = Ok r1 \<Longrightarrow> I r1"
  shows "I r'"
  using lzw_emit_loop_invariant_aux [of I rctx d code "Ok r'"] assms by blast

lemma lzw_emit_loop_frame:
  "lzw_emit_loop rctx d code = Some (Ok r') \<Longrightarrow> frame_eq rctx r'"
  by (erule lzw_emit_loop_invariant [where I = "frame_eq rctx"])
     (auto intro: frame_eq_refl frame_eq_trans iwgif_record_pixel_frame)

lemma bind_result_eq_Ok:
  "bind_result m f = Ok y \<longleftrightarrow> (\<exists>x. m = Ok x \<and> f x = Ok y)"
  by (cases m) auto

lemma lzw_emit_code_frame:
  "lzw_emit_code rctx d code = Ok r' \<Longrightarrow> frame_eq rctx r'"
  unfolding lzw_emit_code_def
  by (auto split: option.splits simp: bind_result_eq_Ok dest!: lzw_emit_loop_frame)
     (auto simp: frame_eq_def strip_pixels_def)

lemma lzw_process_code_frame:
  "lzw_process_code rctx d code = Ok (r', d') \<Longrightarrow> frame_eq rctx r'"
  unfolding lzw_process_code_def Let_def
  by (auto split: if_splits prod.splits simp: bind_result_eq_Ok
      dest: lzw_emit_code_frame intro: frame_eq_refl)

lemma lzw_process_bit_frame:
  "lzw_process_bit rctx d x b = Ok (r', d') \<Longrightarrow> frame_eq rctx r'"
  unfolding lzw_process_bit_def Let_def
  by (auto split: if_splits prod.splits simp: bind_result_eq_Ok
      dest: lzw_process_code_frame intro: frame_eq_refl)

lemma lzw_process_bits_frame:
  "lzw_process_bits rctx d x bs = Ok (stop, r', d') \<Longrightarrow> frame_eq rctx r'"
proof (induction bs arbitrary: rctx d)
  case Nil
  then show ?case by (simp add: frame_eq_refl)
next
  case (Cons b bs)
  show ?case
  proof (cases "eoi_flag d")
    case True
    with Cons.prems show ?thesis by (simp add: frame_eq_refl)
  next
    case False
    with Cons.prems obtain r1 d1 where
      "lzw_process_bit rctx d x b = Ok (r1, d1)" "lzw_process_bits r1 d1 x bs = Ok (stop, r', d')"
      by (auto split: result.splits)
    then show ?thesis
      using Cons.IH lzw_process_bit_frame frame_eq_trans by blast
  qed
qed

lemma lzw_process_bytes_frame:
  "lzw_process_bytes rctx d xs = Ok (r', d') \<Longrightarrow> frame_eq rctx r'"
proof (induction xs arbitrary: rctx d)
  case Nil
  then show ?case by (simp add: frame_eq_refl)
next
  case (Cons x xs)
  from Cons.prems obtain stop r1 d1 where
    bits: "lzw_process_bits rctx d x [0..<8] = Ok (stop, r1, d1)"
    and rest: "if stop then (r', d') = (r1, d1) else lzw_process_bytes r1 d1 xs = Ok (r', d')"
    by (auto split: result.splits if_splits)
  from bits have "frame_eq rctx r1" by (rule lzw_process_bits_frame)
  with rest Cons.IH show ?case
    by (cases stop) (auto intro: frame_eq_trans)
qed

lemma frame_eq_iodescr: "frame_eq r r' \<Longrightarrow> iodescr r' = iodescr r"
  unfolding frame_eq_def strip_pixels_def
  by (drule arg_cong [where f = iodescr]) simp

lemma lzw_process_bytes_iodescr:
  "lzw_process_bytes rctx d xs = Ok (r', d') \<Longrightarrow> iodescr r' = iodescr rctx"
  by (drule lzw_process_bytes_frame) (rule frame_eq_iodescr)

text \<open>
  \<open>iwgif_read_graphics_control_ext\<close>. The source declares \<open>int retval;\<close> without an
  initial value and assigns it only on the path of a well-formed payload, so the three
  \<open>goto done\<close> return whatever the variable held. That indeterminate value is the
  parameter \<open>uninit\<close>.
\<close>

definition iwgif_read_graphics_control_ext ::
  "int \<Rightarrow> iwgifreadcontext \<Rightarrow> int \<times> iwgifreadcontext" where
  "iwgif_read_graphics_control_ext uninit rctx =
     (let (ok, r1) = iwgif_read rctx 6 in
      if \<not> ok then (uninit, r1)
      else if rbuf r1 0 \<noteq> 4 then (uninit, r1)
      else if rbuf r1 5 \<noteq> 0 then (uninit, r1)
      else
        let r2 = r1\<lparr>has_transparency := (rbuf r1 1 AND 0x01 \<noteq> 0)\<rparr>;
            r3 = (if has_transparency r2
                  then
                    let r = r2\<lparr>trans_color_index := unat (rbuf r2 4)\<rparr> in
                    r\<lparr>colortable := (colortable r)
                        \<lparr>entry := (entry (colortable r))
                           (trans_color_index r :=
                              (entry (colortable r) (trans_color_index r))\<lparr>rgba_a := 0\<rparr>)\<rparr>\<rparr>
                  else r2)
        in (1, r3))"

definition iwgif_read_extension :: "int \<Rightarrow> iwgifreadcontext \<Rightarrow> iwgifreadcontext result" where
  "iwgif_read_extension uninit rctx =
     (let (ok, r1) = iwgif_read rctx 1 in
      if \<not> ok then Failed Unreported
      else if rbuf r1 0 = 0xf9 then
        (let (retval, r2) = iwgif_read_graphics_control_ext uninit r1 in
         if retval = 0 then Failed Unreported else Ok r2)
      else iwgif_skip_subblocks r1)"

definition iwgif_init_screen :: "iwgifreadcontext \<Rightarrow> iwgifreadcontext result" where
  "iwgif_init_screen rctx =
     (if screen_initialized rctx then Ok rctx
      else
        let r1 = rctx\<lparr>screen_initialized := True\<rparr>;
            r2 = (if has_transparency r1
                  then r1\<lparr>bytes_per_pixel := 4, img := (img r1)\<lparr>imgtype := IW_IMGTYPE_RGBA\<rparr>\<rparr>
                  else r1\<lparr>bytes_per_pixel := 3, img := (img r1)\<lparr>imgtype := IW_IMGTYPE_RGB\<rparr>\<rparr>);
            r3 = r2\<lparr>img := (img r2)\<lparr>bit_depth := 8,
                                     bpr := bytes_per_pixel r2 * width (img r2)\<rparr>\<rparr>
        in
        if \<not> alloc_ok (ctx r3) (bpr (img r3) * height (img r3)) then Failed Unreported
        else
          Ok (r3\<lparr>img := (img r3)
                \<lparr>pixels := Some (replicate (bpr (img r3) * height (img r3)) 0)\<rparr>\<rparr>))"

text \<open>
  \<open>iwgif_make_row_pointers\<close>. A row pointer is the offset into \<open>pixels\<close> of the first byte
  of the row. \<open>interlace_pass\<close> is the inner \<open>for\<close> loop of one pass, \<open>interlace_rows\<close> the
  rows in the order in which the four passes store them (\<open>rowcount++\<close>).
\<close>

definition pass_startrow :: "nat \<Rightarrow> nat" where
  "pass_startrow pass = (if pass = 1 then 0 else if pass = 2 then 4 else if pass = 3 then 2 else 1)"

definition pass_rowskip :: "nat \<Rightarrow> nat" where
  "pass_rowskip pass = (if pass = 1 then 8 else if pass = 2 then 8 else if pass = 3 then 4 else 2)"

function interlace_pass :: "nat \<Rightarrow> nat \<Rightarrow> nat \<Rightarrow> nat list" where
  "interlace_pass pass row h =
     (if row < h then row # interlace_pass pass (row + pass_rowskip pass) h else [])"
  by pat_completeness auto
termination
  by (relation "measure (\<lambda>(pass, row, h). h - row)") (auto simp: pass_rowskip_def)

declare interlace_pass.simps [simp del]


definition interlace_rows :: "nat \<Rightarrow> nat list" where
  "interlace_rows h = concat (map (\<lambda>pass. interlace_pass pass (pass_startrow pass) h) [1..<5])"

definition sizeof_pointer :: nat where
  "sizeof_pointer = 8"

definition row_pointer :: "iwgifreadcontext \<Rightarrow> nat \<Rightarrow> nat" where
  "row_pointer rctx row =
     (image_top rctx + row) * bpr (img rctx) + image_left rctx * bytes_per_pixel rctx"

definition iwgif_make_row_pointers :: "iwgifreadcontext \<Rightarrow> iwgifreadcontext result" where
  "iwgif_make_row_pointers rctx =
     (if \<not> alloc_ok (ctx rctx) (sizeof_pointer * image_height rctx)
      then Failed Unreported
      else
        Ok (rctx\<lparr>row_pointers :=
              Some (map (row_pointer rctx)
                     (if interlaced rctx then interlace_rows (image_height rctx)
                      else [0..<image_height rctx]))\<rparr>))"

text \<open>The \<open>while(1)\<close> loop of \<open>iwgif_read_image\<close> over the subblocks of the image data.\<close>

function iwgif_read_image_loop ::
  "iwgifreadcontext \<Rightarrow> lzwdeccontext \<Rightarrow> iwgifreadcontext result" where
  "iwgif_read_image_loop rctx d =
     (case iwgif_read rctx 1 of
        (False, r1) \<Rightarrow> Failed Unreported
      | (True, r1) \<Rightarrow>
          if rbuf r1 0 = 0 then Ok r1
          else
            (case iwgif_read r1 (unat (rbuf r1 0)) of
               (False, r2) \<Rightarrow> Failed Unreported
             | (True, r2) \<Rightarrow>
                 (case lzw_process_bytes r2 d (map (rbuf r2) [0..<unat (rbuf r1 0)]) of
                    Ok (r3, d3) \<Rightarrow>
                      if eoi_flag d3 then Ok r3
                      else if pixels_set r3 \<ge> total_npixels r3 then Ok r3
                      else iwgif_read_image_loop r3 d3
                  | Failed e \<Rightarrow> Failed e
                  | Fault \<Rightarrow> Fault
                  | Diverges \<Rightarrow> Diverges)))"
  by pat_completeness auto
termination
  by (relation "measure (\<lambda>(rctx, d). length (iodescr rctx))")
     (auto dest!: iwgif_read_length iwgif_read_length [OF sym] lzw_process_bytes_iodescr)

declare iwgif_read_image_loop.simps [simp del]


text \<open>
  \<open>total_npixels = image_width * image_height\<close> is a product of two \<open>int\<close>s, converted to
  \<open>size_t\<close>. Both factors are 16-bit fields of the file, so the product is below \<open>2^32\<close>,
  but it passes \<open>INT_MAX\<close> for large images: the product wraps around to a negative
  \<open>int\<close> (32 bits, two's complement), and the conversion to a 64-bit \<open>size_t\<close> makes that a
  number just below \<open>2^64\<close>.
\<close>

definition int_product_to_size_t :: "nat \<Rightarrow> nat \<Rightarrow> nat" where
  "int_product_to_size_t a b =
     (let p = (a * b) mod 2 ^ 32 in if p < 2 ^ 31 then p else 2 ^ 64 - 2 ^ 32 + p)"


definition iwgif_read_image :: "iwgifreadcontext \<Rightarrow> iwgifreadcontext result" where
  "iwgif_read_image rctx =
     (let (ok, r1) = iwgif_read rctx 10 in
      if \<not> ok then Failed Unreported
      else
        let r2 = r1\<lparr>image_left := iw_read_uint16le (rbuf r1) 0\<rparr>;
            r3 = r2\<lparr>image_height := iw_read_uint16le (rbuf r2) 2\<rparr>;
            r4 = r3\<lparr>image_width := iw_read_uint16le (rbuf r3) 4\<rparr>;
            r5 = r4\<lparr>image_height := iw_read_uint16le (rbuf r4) 6\<rparr>;
            r6 = r5\<lparr>interlaced := (drop_bit 6 (rbuf r5 8) AND 0x01 \<noteq> 0)\<rparr>;
            has_local_ct = (drop_bit 7 (rbuf r6 8) AND 0x01 \<noteq> 0);
            r7 = (if has_local_ct
                  then r6\<lparr>colortable := (colortable r6)
                          \<lparr>num_entries := push_bit (1 + unat (rbuf r6 8 AND 0x07)) 1\<rparr>\<rparr>
                  else r6)
        in
        bind_result (if has_local_ct then iwgif_read_color_table r7 else Ok r7) (\<lambda>r8.
          let root_codesize = unat (rbuf r8 9) in
          if root_codesize < 2 \<or> root_codesize > 11
          then Failed (Reported iws_gif_inval_lzw_min)
          else
            bind_result (iwgif_init_screen r8) (\<lambda>r9.
              let r10 = r9\<lparr>total_npixels :=
                             int_product_to_size_t (image_width r9) (image_height r9)\<rparr> in
              bind_result (iwgif_make_row_pointers r10) (\<lambda>r11.
                iwgif_read_image_loop r11 (lzw_clear (lzw_init root_codesize))))))"

lemma iwgif_read_le: "length (iodescr (snd (iwgif_read rctx n))) \<le> length (iodescr rctx)"
  by (simp add: iwgif_read_def)

lemma iwgif_skip_subblocks_le:
  "iwgif_skip_subblocks rctx = Ok r' \<Longrightarrow> length (iodescr r') \<le> length (iodescr rctx)"
proof (induction rctx rule: iwgif_skip_subblocks.induct)
  case (1 rctx)
  obtain ok r1 where rd1: "iwgif_read rctx 1 = (ok, r1)" by (cases "iwgif_read rctx 1")
  obtain ok2 r2 where rd2: "iwgif_read r1 (unat (rbuf r1 0)) = (ok2, r2)"
    by (cases "iwgif_read r1 (unat (rbuf r1 0))")
  have le1: "length (iodescr r1) \<le> length (iodescr rctx)"
    using iwgif_read_le [of rctx 1] rd1 by simp
  have le2: "length (iodescr r2) \<le> length (iodescr r1)"
    using iwgif_read_le [of r1 "unat (rbuf r1 0)"] rd2 by simp
  from "1.prems" rd1 have ok
    by (subst (asm) iwgif_skip_subblocks.simps) (auto split: if_splits bool.splits)
  show ?case
  proof (cases "rbuf r1 0 = 0")
    case True
    with "1.prems" rd1 \<open>ok\<close> have "r' = r1"
      by (subst (asm) iwgif_skip_subblocks.simps) simp
    with le1 show ?thesis by simp
  next
    case False
    with "1.prems" rd1 rd2 \<open>ok\<close> have ok2 and "iwgif_skip_subblocks r2 = Ok r'"
      by (subst (asm) iwgif_skip_subblocks.simps, auto split: if_splits bool.splits)+
    with "1.IH" [of ok r1 ok2 r2] rd1 rd2 \<open>ok\<close> False
    have "length (iodescr r') \<le> length (iodescr r2)" by simp
    with le1 le2 show ?thesis by simp
  qed
qed

lemma iwgif_read_extension_le:
  "iwgif_read_extension uninit rctx = Ok r' \<Longrightarrow> length (iodescr r') \<le> length (iodescr rctx)"
proof -
  assume ext: "iwgif_read_extension uninit rctx = Ok r'"
  obtain ok r1 where rd1: "iwgif_read rctx 1 = (ok, r1)" by (cases "iwgif_read rctx 1")
  have le1: "length (iodescr r1) \<le> length (iodescr rctx)"
    using iwgif_read_le [of rctx 1] rd1 by simp
  have "length (iodescr r') \<le> length (iodescr r1)"
  proof (cases "rbuf r1 0 = 0xf9")
    case True
    with ext rd1 have "r' = snd (iwgif_read_graphics_control_ext uninit r1)"
      by (auto simp: iwgif_read_extension_def split: if_splits prod.splits)
    moreover have "length (iodescr (snd (iwgif_read_graphics_control_ext uninit r1)))
        \<le> length (iodescr r1)"
      using iwgif_read_le [of r1 6]
      by (auto simp: iwgif_read_graphics_control_ext_def Let_def split: prod.splits)
    ultimately show ?thesis by simp
  next
    case False
    with ext rd1 have "iwgif_skip_subblocks r1 = Ok r'"
      by (auto simp: iwgif_read_extension_def split: if_splits)
    then show ?thesis by (rule iwgif_skip_subblocks_le)
  qed
  with le1 show ?thesis by simp
qed

text \<open>The \<open>while(1)\<close> loop of \<open>iwgif_read_main\<close> over the blocks of the file.\<close>

function iwgif_read_blocks :: "int \<Rightarrow> iwgifreadcontext \<Rightarrow> iwgifreadcontext result" where
  "iwgif_read_blocks uninit rctx =
     (case iwgif_read rctx 1 of
        (False, r1) \<Rightarrow> Failed Unreported
      | (True, r1) \<Rightarrow>
          if rbuf r1 0 = 0x21 then
            (case iwgif_read_extension uninit r1 of
               Ok r2 \<Rightarrow> iwgif_read_blocks uninit r2
             | Failed e \<Rightarrow> Failed e
             | Fault \<Rightarrow> Fault
             | Diverges \<Rightarrow> Diverges)
          else if rbuf r1 0 = 0x2c then iwgif_read_image r1
          else if rbuf r1 0 = 0x3b then Failed (Reported iws_gif_no_image)
          else Failed (Reported iws_gif_unsupported))"
  by pat_completeness auto
termination
  by (relation "measure (\<lambda>(uninit, rctx). length (iodescr rctx))")
     (auto dest!: iwgif_read_length iwgif_read_length [OF sym] iwgif_read_extension_le)

declare iwgif_read_blocks.simps [simp del]


text \<open>\<open>make_opaque\<close> is the loop of \<open>iwgif_read_main\<close> over the 256 palette slots.\<close>

definition make_opaque :: "(nat \<Rightarrow> iw_rgba) \<Rightarrow> (nat \<Rightarrow> iw_rgba)" where
  "make_opaque e0 = fold (\<lambda>i e. e(i := (e i)\<lparr>rgba_a := 255\<rparr>)) [0..<256] e0"

lemma make_opaque_apply:
  "make_opaque e0 i = (if i < 256 then (e0 i)\<lparr>rgba_a := 255\<rparr> else e0 i)"
  unfolding make_opaque_def
  using fold_upd_upt [where g = "\<lambda>i x. x\<lparr>rgba_a := 255\<rparr>" and n = 256 and ?e0.0 = e0]
  by simp

definition iwgif_read_main :: "int \<Rightarrow> iwgifreadcontext \<Rightarrow> iwgifreadcontext result" where
  "iwgif_read_main uninit rctx =
     (let r0 = rctx\<lparr>colortable := (colortable rctx)
                  \<lparr>entry := make_opaque (entry (colortable rctx))\<rparr>\<rparr>
      in
      bind_result (iwgif_read_file_header r0) (\<lambda>r1.
      bind_result (iwgif_read_screen_descriptor r1) (\<lambda>r2.
      bind_result (iwgif_read_color_table r2) (\<lambda>r3.
        let c = entry (colortable r3) (bg_color_index r3);
            r4 = (if has_bg_color r3
                  then r3\<lparr>ctx := (ctx r3)
                          \<lparr>input_bkgd_label :=
                             Some (real (unat (rgba_r c)) / 255, real (unat (rgba_g c)) / 255,
                                   real (unat (rgba_b c)) / 255)\<rparr>\<rparr>
                  else r3)
        in iwgif_read_blocks uninit r4))))"

text \<open>
  \<open>iw_read_gif_file\<close>: the context starts as zeros (\<open>memset\<close>). The result is the image
  handed to \<open>iw_set_input_image\<close>, or the strings given to \<open>iw_seterror\<close>, in order, when
  the function returns 0.
\<close>

definition zero_rgba :: iw_rgba where
  "zero_rgba = \<lparr>rgba_r = 0, rgba_g = 0, rgba_b = 0, rgba_a = 0\<rparr>"

definition zero_image :: iw_image where
  "zero_image =
     \<lparr>imgtype = IW_IMGTYPE_UNSET, bit_depth = 0, width = 0, height = 0, bpr = 0,
      pixels = None, density_code = IW_DENSITY_UNSET, density_x = 0, density_y = 0\<rparr>"

definition zero_rctx :: "iw_context \<Rightarrow> byte list \<Rightarrow> iwgifreadcontext" where
  "zero_rctx c input =
     \<lparr>iodescr = input, ctx = c, img = zero_image,
      screen_width = 0, screen_height = 0, image_width = 0, image_height = 0,
      image_left = 0, image_top = 0, screen_initialized = False, interlaced = False,
      bytes_per_pixel = 0, has_transparency = False, has_bg_color = False,
      bg_color_index = 0, trans_color_index = 0, pixels_set = 0, total_npixels = 0,
      row_pointers = None,
      colortable = \<lparr>num_entries = 0, entry = (\<lambda>i. zero_rgba)\<rparr>,
      rbuf = (\<lambda>i. 0)\<rparr>"

definition iw_read_gif_file ::
  "int \<Rightarrow> iw_context \<Rightarrow> byte list \<Rightarrow> (iwgif_string list + iw_image \<times> iw_context) result" where
  "iw_read_gif_file uninit c input =
     (case iwgif_read_main uninit (zero_rctx c input) of
        Ok rctx \<Rightarrow> Ok (Inr (img rctx, ctx rctx))
      | Failed Unreported \<Rightarrow> Ok (Inl [iws_gif_read_error])
      | Failed (Reported s) \<Rightarrow> Ok (Inl [s, iws_gif_read_error])
      | Fault \<Rightarrow> Fault
      | Diverges \<Rightarrow> Diverges)"

section \<open>Interlace row order\<close>

text \<open>
  The rows of one pass in the words of the specification: the rows \<open>start\<close>,
  \<open>start + step\<close>, \<open>start + 2 * step\<close>, ... below the image height, in increasing order.
\<close>

definition pass_rows :: "nat \<Rightarrow> nat \<Rightarrow> nat \<Rightarrow> nat list" where
  "pass_rows start step h = filter (\<lambda>row. start \<le> row \<and> (row - start) mod step = 0) [0..<h]"

lemma pass_rowskip_pos: "0 < pass_rowskip pass"
  by (simp add: pass_rowskip_def)

lemma pass_rows_empty: "h \<le> start \<Longrightarrow> pass_rows start step h = []"
  by (auto simp: pass_rows_def filter_empty_conv)

lemma pass_rows_step:
  assumes "start < h" and "0 < step"
  shows "pass_rows start step h = start # pass_rows (start + step) step h"
proof -
  let ?P = "\<lambda>row. start \<le> row \<and> (row - start) mod step = 0"
  let ?Q = "\<lambda>row. start + step \<le> row \<and> (row - (start + step)) mod step = 0"
  have split: "[0..<h] = [0..<start] @ start # [Suc start..<h]"
    using assms(1) by (metis le_add1 less_imp_le_nat upt_add_eq_append upt_conv_Cons plus_nat.add_0 le_add_diff_inverse)
  have low_P: "filter ?P [0..<start] = []"
    by (auto simp: filter_empty_conv)
  have low_Q: "filter ?Q ([0..<start] @ [start]) = []"
    using assms(2) by (auto simp: filter_empty_conv)
  have high: "filter ?P [Suc start..<h] = filter ?Q [Suc start..<h]"
  proof (rule filter_cong [OF refl])
    fix row assume "row \<in> set [Suc start..<h]"
    then have gt: "start < row" by simp
    show "?P row = ?Q row"
    proof
      assume p: "?P row"
      then have dvd: "step dvd (row - start)" by (simp add: mod_eq_0_iff_dvd)
      with gt have "step \<le> row - start" by (simp add: dvd_imp_le)
      with gt have le: "start + step \<le> row" by linarith
      from dvd have "step dvd (row - start - step)" by (rule dvd_diff_nat) simp
      then have "step dvd (row - (start + step))" by simp
      with le show "?Q row" by (simp add: mod_eq_0_iff_dvd)
    next
      assume q: "?Q row"
      then have "step dvd (row - (start + step))" by (simp add: mod_eq_0_iff_dvd)
      then have "step dvd (row - (start + step) + step)" by (rule dvd_add) simp
      moreover from q have "row - (start + step) + step = row - start" by simp
      ultimately have "step dvd (row - start)" by (simp only:)
      with gt show "?P row" by (simp only: mod_eq_0_iff_dvd) simp
    qed
  qed
  have "pass_rows start step h = filter ?P [0..<start] @ filter ?P [start] @ filter ?P [Suc start..<h]"
    unfolding pass_rows_def by (subst split) simp
  also have "\<dots> = start # filter ?Q [Suc start..<h]"
    using low_P high by simp
  also have "filter ?Q [Suc start..<h] = filter ?Q (([0..<start] @ [start]) @ [Suc start..<h])"
    using low_Q by (simp only: filter_append append_Nil)
  also have "([0..<start] @ [start]) @ [Suc start..<h] = [0..<h]"
    using split by simp
  finally show ?thesis by (simp add: pass_rows_def)
qed

lemma interlace_pass_rows:
  "interlace_pass pass row h = pass_rows row (pass_rowskip pass) h"
proof (induction pass row h rule: interlace_pass.induct)
  case (1 pass row h)
  show ?case
  proof (cases "row < h")
    case True
    then have "interlace_pass pass row h = row # interlace_pass pass (row + pass_rowskip pass) h"
      by (subst interlace_pass.simps) simp
    also have "\<dots> = row # pass_rows (row + pass_rowskip pass) (pass_rowskip pass) h"
      using "1.IH" True by simp
    also have "\<dots> = pass_rows row (pass_rowskip pass) h"
      using True pass_rowskip_pos by (simp add: pass_rows_step)
    finally show ?thesis .
  next
    case False
    then show ?thesis
      by (subst interlace_pass.simps) (simp add: pass_rows_empty)
  qed
qed

lemma interlace_rows_passes:
  "interlace_rows h = pass_rows 0 8 h @ pass_rows 4 8 h @ pass_rows 2 4 h @ pass_rows 1 2 h"
proof -
  have "[1..<5] = [1, 2, 3, 4::nat]" by (simp add: upt_rec)
  then show ?thesis
    by (simp add: interlace_rows_def interlace_pass_rows pass_startrow_def pass_rowskip_def)
qed

text \<open>
  C2 (amended). For an interlaced image of 8 rows the sequential decoded rows go to the
  true rows \<open>[0,4,2,6,1,3,5,7]\<close>: the row table is the concatenation of the four passes
  with (start, step) = (0,8), (4,8), (2,4), (1,2), and the last pass stores the rows 1, 3,
  5, 7 in increasing order.
\<close>

theorem interlace_row_order:
  "interlace_rows 8 = [0, 4, 2, 6, 1, 3, 5, 7] \<and>
   interlace_rows h = pass_rows 0 8 h @ pass_rows 4 8 h @ pass_rows 2 4 h @ pass_rows 1 2 h"
proof
  show "interlace_rows 8 = [0, 4, 2, 6, 1, 3, 5, 7]"
    by code_simp
  show "interlace_rows h = pass_rows 0 8 h @ pass_rows 4 8 h @ pass_rows 2 4 h @ pass_rows 1 2 h"
    by (rule interlace_rows_passes)
qed

text \<open>
  C2 as stated fails: the list \<open>[0,4,2,6,1,5,3,7]\<close> of the claim has the rows 3 and 5 of
  the last pass exchanged.
\<close>

theorem interlace_row_order_as_claimed_fails:
  "interlace_rows 8 \<noteq> [0, 4, 2, 6, 1, 5, 3, 7]"
  by code_simp

section \<open>The LZW decoder: reachable states and their invariants\<close>

lemma ct_lzw_init:
  "ct (lzw_init rcs) = (\<lambda>i. if i < 2 ^ rcs then lzw_init_entry i else zero_entry)"
  by (simp add: lzw_init_def fun_eq_iff lzw_init_table_apply)

lemma iwgif_record_pixel_not_Failed: "iwgif_record_pixel rctx c off \<noteq> Failed e"
  by (simp add: iwgif_record_pixel_def Let_def split: option.splits)

lemma iwgif_record_pixel_not_Diverges: "iwgif_record_pixel rctx c off \<noteq> Diverges"
  by (simp add: iwgif_record_pixel_def Let_def split: option.splits)

lemma lzw_emit_loop_Ok_or_Fault:
  "lzw_emit_loop rctx d code = Some res \<Longrightarrow> res = Fault \<or> (\<exists>r'. res = Ok r')"
proof (rule lzw_emit_loop.raw_induct
      [where P = "\<lambda>rctx d code res. res = Fault \<or> (\<exists>r'. res = Ok r')"])
  fix emit rctx d code res
  assume IH: "\<And>rctx d code res. emit rctx d code = Some res \<Longrightarrow> res = Fault \<or> (\<exists>r'. res = Ok r')"
    and body: "(if 4096 \<le> code then Some Fault
       else case iwgif_record_pixel rctx (unat (value_t (ct d code))) (length_t (ct d code)) of
              Ok rctx' \<Rightarrow>
                if length_t (ct d code) < 1 then Some (Ok rctx')
                else emit rctx' d (reference (ct d code))
            | Failed e \<Rightarrow> Some (Failed e) | Fault \<Rightarrow> Some Fault
            | Diverges \<Rightarrow> Some Diverges) = Some res"
  show "res = Fault \<or> (\<exists>r'. res = Ok r')"
  proof (cases "iwgif_record_pixel rctx (unat (value_t (ct d code))) (length_t (ct d code))")
    case (Ok rctx')
    show ?thesis
    proof (cases "4096 \<le> code \<or> length_t (ct d code) < 1")
      case True
      with body Ok have "res = Fault \<or> res = Ok rctx'" by (auto split: if_splits)
      then show ?thesis by blast
    next
      case False
      with body Ok have "emit rctx' d (reference (ct d code)) = Some res" by simp
      then show ?thesis by (rule IH)
    qed
  next
    case (Failed e)
    then show ?thesis by (simp add: iwgif_record_pixel_not_Failed)
  next
    case Fault
    with body show ?thesis by (simp split: if_splits)
  next
    case Diverges
    then show ?thesis by (simp add: iwgif_record_pixel_not_Diverges)
  qed
qed

lemma lzw_emit_code_not_Failed: "lzw_emit_code rctx d code \<noteq> Failed e"
  by (auto simp: lzw_emit_code_def split: option.splits dest!: lzw_emit_loop_Ok_or_Fault)

lemma lzw_add_to_dict_not_Failed: "lzw_add_to_dict d oldc v \<noteq> Failed e"
  by (simp add: lzw_add_to_dict_def Let_def)

lemma bind_result_eq_Failed:
  "bind_result m f = Failed e \<longleftrightarrow> m = Failed e \<or> (\<exists>x. m = Ok x \<and> f x = Failed e)"
  by (cases m) auto


lemma codesize_step:
  fixes cs u :: nat
  assumes "3 \<le> cs" "cs \<le> 12" "2 ^ (cs - 1) \<le> u" "u < 2 ^ cs" "u < 4096"
  shows "(if u \<in> {7, 15, 31, 63, 127, 255, 511, 1023, 2047} then cs + 1 else cs) \<le> 12 \<and>
         (Suc u < 2 ^ (if u \<in> {7, 15, 31, 63, 127, 255, 511, 1023, 2047} then cs + 1 else cs) \<or>
          Suc u = 4096 \<and> (if u \<in> {7, 15, 31, 63, 127, 255, 511, 1023, 2047} then cs + 1 else cs) = 12) \<and>
         2 ^ ((if u \<in> {7, 15, 31, 63, 127, 255, 511, 1023, 2047} then cs + 1 else cs) - 1) \<le> Suc u"
proof -
  from assms(1,2) have "cs = 3 \<or> cs = 4 \<or> cs = 5 \<or> cs = 6 \<or> cs = 7 \<or> cs = 8 \<or> cs = 9 \<or> cs = 10 \<or>
      cs = 11 \<or> cs = 12"
    by arith
  then show ?thesis
    using assms(3,4,5) by (elim disjE) (simp_all, arith+)
qed


text \<open>
  The states of the decoder that a decode can reach: \<open>iwgif_read_image\<close> starts from
  \<open>lzw_clear (lzw_init R)\<close> with \<open>R\<close> in \<open>[2,11]\<close>; \<open>lzw_process_bytes\<close> changes the
  state by collecting bits and by \<open>lzw_process_code\<close> on a code of \<open>current_codesize\<close>
  bits.
\<close>

inductive lzw_reachable :: "nat \<Rightarrow> lzwdeccontext \<Rightarrow> bool" for R :: nat where
  start: "2 \<le> R \<Longrightarrow> R \<le> 11 \<Longrightarrow> lzw_reachable R (lzw_clear (lzw_init R))"
| code: "lzw_reachable R d \<Longrightarrow> c < 2 ^ current_codesize d \<Longrightarrow>
         lzw_process_code rctx d c = Ok (rctx', d') \<Longrightarrow> lzw_reachable R d'"
| bits: "lzw_reachable R d \<Longrightarrow>
         lzw_reachable R (d\<lparr>pending_code := p, bits_in_pending_code := b\<rparr>)"

definition lzw_inv :: "nat \<Rightarrow> lzwdeccontext \<Rightarrow> bool" where
  "lzw_inv R d \<longleftrightarrow>
     2 \<le> R \<and> R \<le> 11 \<and>
     root_codesize d = R \<and> num_root_codes d = 2 ^ R \<and>
     clear_code d = 2 ^ R \<and> eoi_code d = 2 ^ R + 1 \<and>
     2 ^ R + 2 \<le> ct_used d \<and> ct_used d \<le> 4096 \<and>
     R + 1 \<le> current_codesize d \<and> current_codesize d \<le> 12 \<and>
     (ct_used d < 2 ^ current_codesize d \<or> ct_used d = 4096 \<and> current_codesize d = 12) \<and>
     2 ^ (current_codesize d - 1) \<le> ct_used d \<and>
     oldcode d < 4096 \<and>
     (ncodes_since_clear d = 0 \<longrightarrow> ct_used d = 2 ^ R + 2) \<and>
     (\<forall>i < 2 ^ R. ct d i = lzw_init_entry i)"

lemma pow2_bounds:
  fixes R :: nat
  assumes "2 \<le> R" "R \<le> 11"
  shows "(4::nat) \<le> 2 ^ R" and "(2::nat) ^ R \<le> 2048"
proof -
  have "(2::nat) ^ 2 \<le> 2 ^ R" using assms(1) by (rule power_increasing) simp
  then show "(4::nat) \<le> 2 ^ R" by simp
  have "(2::nat) ^ R \<le> 2 ^ 11" using assms(2) by (rule power_increasing) simp
  then show "(2::nat) ^ R \<le> 2048" by simp
qed

lemma lzw_inv_start:
  assumes "2 \<le> R" "R \<le> 11"
  shows "lzw_inv R (lzw_clear (lzw_init R))"
proof -
  have "(2::nat) ^ R + 2 < 2 ^ (R + 1)" using pow2_bounds(1) [OF assms] by simp
  then show ?thesis
    using assms pow2_bounds [OF assms]
    by (simp add: lzw_inv_def lzw_clear_def ct_lzw_init) (simp add: lzw_init_def)
qed

lemma lzw_inv_clear: "lzw_inv R d \<Longrightarrow> lzw_inv R (lzw_clear d)"
proof -
  assume inv: "lzw_inv R d"
  then have R: "2 \<le> R" "R \<le> 11" by (simp_all add: lzw_inv_def)
  have "(2::nat) ^ R + 2 < 2 ^ (R + 1)" using pow2_bounds(1) [OF R] by simp
  with inv pow2_bounds [OF R] show ?thesis
    by (simp add: lzw_inv_def lzw_clear_def)
qed

lemma lzw_inv_codesize_ge3: "lzw_inv R d \<Longrightarrow> 3 \<le> current_codesize d"
  by (simp add: lzw_inv_def)

lemma lzw_add_to_dict_inv:
  assumes inv: "lzw_inv R d" and nz: "ncodes_since_clear d \<noteq> 0"
    and add: "lzw_add_to_dict d (oldcode d) v = Ok (n, d')"
  shows "lzw_inv R d' \<and> ncodes_since_clear d' = ncodes_since_clear d \<and> oldcode d' = oldcode d"
proof (cases "ct_used d \<ge> 4096")
  case True
  with add have "d' = d" by (simp add: lzw_add_to_dict_def)
  with inv show ?thesis by simp
next
  case False
  from inv have old: "oldcode d < 4096" by (simp add: lzw_inv_def)
  let ?cs' = "if ct_used d \<in> {7, 15, 31, 63, 127, 255, 511, 1023, 2047}
              then current_codesize d + 1 else current_codesize d"
  let ?e = "\<lparr>reference = oldcode d, length_t = length_t (ct d (oldcode d)) + 1, value_t = v,
             firstchar = firstchar (ct d (oldcode d))\<rparr>"
  from add False old have d': "d' = d\<lparr>ct_used := ct_used d + 1, ct := (ct d)(ct_used d := ?e),
      current_codesize := ?cs'\<rparr>"
    by (auto simp: lzw_add_to_dict_def Let_def)
  from inv False have lt: "ct_used d < 2 ^ current_codesize d" by (auto simp: lzw_inv_def)
  have step: "?cs' \<le> 12 \<and> (Suc (ct_used d) < 2 ^ ?cs' \<or> Suc (ct_used d) = 4096 \<and> ?cs' = 12) \<and>
      2 ^ (?cs' - 1) \<le> Suc (ct_used d)"
    using inv False lt by (intro codesize_step) (simp_all add: lzw_inv_def)
  from inv have roots: "\<forall>i < 2 ^ R. ct d i = lzw_init_entry i" and lo: "2 ^ R + 2 \<le> ct_used d"
    by (simp_all add: lzw_inv_def)
  then have roots': "\<forall>i < 2 ^ R. ((ct d)(ct_used d := ?e)) i = lzw_init_entry i" by simp
  have cs_le: "current_codesize d \<le> ?cs'" by simp
  show ?thesis
    unfolding d' using inv False nz step roots' cs_le
    by (simp add: lzw_inv_def)
qed


lemma lzw_inv_code_bound:
  assumes "lzw_inv R d" "c < 2 ^ current_codesize d"
  shows "c < (4096::nat)"
proof -
  from assms(1) have "current_codesize d \<le> 12" by (simp add: lzw_inv_def)
  then have "(2::nat) ^ current_codesize d \<le> 2 ^ 12" by (rule power_increasing) simp
  with assms(2) show ?thesis by simp
qed

lemma lzw_inv_ncodes: "lzw_inv R d \<Longrightarrow> lzw_inv R (d\<lparr>ncodes_since_clear := Suc n\<rparr>)"
  by (simp add: lzw_inv_def)

lemma lzw_inv_oldcode: "lzw_inv R d \<Longrightarrow> c < 4096 \<Longrightarrow> lzw_inv R (d\<lparr>oldcode := c\<rparr>)"
  by (simp add: lzw_inv_def)

lemma lzw_inv_eoi_flag: "lzw_inv R d \<Longrightarrow> lzw_inv R (d\<lparr>eoi_flag := f\<rparr>)"
  by (simp add: lzw_inv_def)

lemma lzw_inv_bits:
  "lzw_inv R d \<Longrightarrow> lzw_inv R (d\<lparr>pending_code := p, bits_in_pending_code := b\<rparr>)"
  by (simp add: lzw_inv_def)

lemma lzw_process_code_inv:
  assumes inv: "lzw_inv R d" and c: "c < 2 ^ current_codesize d"
    and run: "lzw_process_code rctx d c = Ok (rctx', d')"
  shows "lzw_inv R d'"
proof -
  let ?d1 = "d\<lparr>ncodes_since_clear := Suc (ncodes_since_clear d)\<rparr>"
  have c4096: "c < 4096" using inv c by (rule lzw_inv_code_bound)
  have inv1: "lzw_inv R ?d1" using inv by (rule lzw_inv_ncodes)
  consider (eoi) "c = eoi_code d"
    | (clear) "c \<noteq> eoi_code d" "c = clear_code d"
    | (first) "c \<noteq> eoi_code d" "c \<noteq> clear_code d" "ncodes_since_clear d = 0"
    | (resident) "c \<noteq> eoi_code d" "c \<noteq> clear_code d" "ncodes_since_clear d \<noteq> 0" "c < ct_used d"
    | (absent) "c \<noteq> eoi_code d" "c \<noteq> clear_code d" "ncodes_since_clear d \<noteq> 0" "\<not> c < ct_used d"
    by blast
  then show ?thesis
  proof cases
    case eoi
    with run have "d' = d\<lparr>eoi_flag := True\<rparr>" by (simp add: lzw_process_code_def)
    with inv show ?thesis by (simp add: lzw_inv_eoi_flag)
  next
    case clear
    with run have "d' = lzw_clear d" by (simp add: lzw_process_code_def)
    with inv show ?thesis by (simp add: lzw_inv_clear)
  next
    case first
    with run have "d' = ?d1\<lparr>oldcode := c\<rparr>"
      by (auto simp: lzw_process_code_def Let_def bind_result_eq_Ok)
    with inv1 c4096 show ?thesis by (simp add: lzw_inv_oldcode)
  next
    case resident
    with run obtain n d2 where
      add: "lzw_add_to_dict ?d1 (oldcode ?d1) (firstchar (ct ?d1 c)) = Ok (n, d2)"
      and d': "d' = d2\<lparr>oldcode := c\<rparr>"
      by (auto simp: lzw_process_code_def Let_def bind_result_eq_Ok)
    from lzw_add_to_dict_inv [OF inv1 _ add] have "lzw_inv R d2" by simp
    with d' c4096 show ?thesis by (simp add: lzw_inv_oldcode)
  next
    case absent
    with run obtain n d2 where
      add: "lzw_add_to_dict ?d1 (oldcode ?d1) (firstchar (ct ?d1 (oldcode ?d1))) = Ok (n, d2)"
      and d': "d' = d2\<lparr>oldcode := c\<rparr>"
      by (auto simp: lzw_process_code_def Let_def bind_result_eq_Ok split: if_splits)
    from lzw_add_to_dict_inv [OF inv1 _ add] have "lzw_inv R d2" by simp
    with d' c4096 show ?thesis by (simp add: lzw_inv_oldcode)
  qed
qed

lemma lzw_reachable_inv: "lzw_reachable R d \<Longrightarrow> lzw_inv R d"
proof (induction rule: lzw_reachable.induct)
  case start
  then show ?case by (rule lzw_inv_start)
next
  case (code d c rctx rctx' d')
  then show ?case by (blast intro: lzw_process_code_inv)
next
  case (bits d p b)
  then show ?case by (simp add: lzw_inv_bits)
qed


subsection \<open>A full table is reachable\<close>

text \<open>A context whose dimension policy and allocator refuse nothing.\<close>

definition permissive_ctx :: iw_context where
  "permissive_ctx =
     \<lparr>dimensions_ok = (\<lambda>w h. True), alloc_ok = (\<lambda>n. True), input_bkgd_label = None\<rparr>"

lemma lzw_emit_code_root_offscreen:
  assumes "image_width rc \<noteq> 0" "screen_width rc = 0" "length_t (ct d c) = 0" "c < 4096"
  shows "lzw_emit_code rc d c = Ok (rc\<lparr>pixels_set := pixels_set rc + 1\<rparr>)"
proof -
  have "iwgif_record_pixel rc (unat (value_t (ct d c))) 0 = Ok rc"
    using assms(1,2) by (simp add: iwgif_record_pixel_def Let_def)
  then have "lzw_emit_loop rc d c = Some (Ok rc)"
    using assms(3,4) by (subst lzw_emit_loop.simps) simp
  then show ?thesis using assms(3) by (simp add: lzw_emit_code_def)
qed

lemma lzw_reachable_grow:
  assumes reach: "lzw_reachable R d" and nz: "ncodes_since_clear d \<noteq> 0"
    and room: "ct_used d < 4096"
  shows "\<exists>d'. lzw_reachable R d' \<and> ct_used d' = ct_used d + 1 \<and> ncodes_since_clear d' \<noteq> 0"
proof -
  define rc where "rc = (zero_rctx permissive_ctx [])\<lparr>image_width := 1\<rparr>"
  from reach have inv: "lzw_inv R d" by (rule lzw_reachable_inv)
  let ?d1 = "d\<lparr>ncodes_since_clear := Suc (ncodes_since_clear d)\<rparr>"
  from inv have R: "2 \<le> R" "R \<le> 11" by (simp_all add: lzw_inv_def)
  note p2 = pow2_bounds [OF R]
  from inv p2 have root0: "ct d 0 = lzw_init_entry 0" by (simp add: lzw_inv_def)
  have emit: "lzw_emit_code rc ?d1 0 = Ok (rc\<lparr>pixels_set := pixels_set rc + 1\<rparr>)"
    by (rule lzw_emit_code_root_offscreen)
       (simp_all add: rc_def zero_rctx_def root0 lzw_init_entry_def)
  from inv have old: "oldcode d < 4096" by (simp add: lzw_inv_def)
  obtain d2 where add: "lzw_add_to_dict ?d1 (oldcode ?d1) (firstchar (ct ?d1 0)) = Ok (int (ct_used d), d2)"
    and used: "ct_used d2 = ct_used d + 1" and nc: "ncodes_since_clear d2 = Suc (ncodes_since_clear d)"
    using room old by (simp add: lzw_add_to_dict_def Let_def)
  from inv p2 have codes: "0 \<noteq> eoi_code d" "0 \<noteq> clear_code d" "0 < ct_used d"
    by (simp_all add: lzw_inv_def)
  have run: "lzw_process_code rc d 0 = Ok (rc\<lparr>pixels_set := pixels_set rc + 1\<rparr>, d2\<lparr>oldcode := 0\<rparr>)"
    using codes nz emit add by (simp add: lzw_process_code_def Let_def)
  have "lzw_reachable R (d2\<lparr>oldcode := 0\<rparr>)"
    using reach _ run by (rule lzw_reachable.code) simp
  with used nc show ?thesis by (intro exI [of _ "d2\<lparr>oldcode := 0\<rparr>"]) simp
qed

lemma lzw_reachable_fill:
  assumes "lzw_reachable R d" "ncodes_since_clear d \<noteq> 0"
  shows "\<exists>d'. lzw_reachable R d' \<and> ct_used d' = 4096"
  using assms
proof (induction "4096 - ct_used d" arbitrary: d)
  case 0
  then have "ct_used d \<le> 4096" using lzw_reachable_inv [of R d] by (simp add: lzw_inv_def)
  with 0 have "ct_used d = 4096" by simp
  with 0 show ?case by blast
next
  case (Suc k)
  then have room: "ct_used d < 4096" by simp
  from lzw_reachable_grow [OF Suc.prems room] obtain d1 where
    d1: "lzw_reachable R d1" "ct_used d1 = ct_used d + 1" "ncodes_since_clear d1 \<noteq> 0"
    by blast
  with Suc.hyps(2) have "k = 4096 - ct_used d1" by simp
  from Suc.hyps(1) [OF this d1(1) d1(3)] show ?case .
qed

lemma lzw_full_table_reachable:
  assumes "2 \<le> R" "R \<le> 11"
  shows "\<exists>d. lzw_reachable R d \<and> ct_used d = 4096"
proof -
  define rc where "rc = (zero_rctx permissive_ctx [])\<lparr>image_width := 1\<rparr>"
  let ?d0 = "lzw_clear (lzw_init R)"
  let ?d1 = "?d0\<lparr>ncodes_since_clear := 1\<rparr>"
  note p2 = pow2_bounds [OF assms]
  have reach0: "lzw_reachable R ?d0" using assms by (rule lzw_reachable.start)
  have emit: "lzw_emit_code rc ?d1 0 = Ok (rc\<lparr>pixels_set := pixels_set rc + 1\<rparr>)"
    using p2
    by (intro lzw_emit_code_root_offscreen)
       (simp_all add: rc_def zero_rctx_def lzw_clear_def ct_lzw_init lzw_init_entry_def)
  have run: "lzw_process_code rc ?d0 0 = Ok (rc\<lparr>pixels_set := pixels_set rc + 1\<rparr>, ?d1\<lparr>oldcode := 0\<rparr>)"
    using p2 emit by (simp add: lzw_process_code_def Let_def) (simp add: lzw_clear_def lzw_init_def)
  have "lzw_reachable R (?d1\<lparr>oldcode := 0\<rparr>)"
    using reach0 _ run by (rule lzw_reachable.code) simp
  then show ?thesis by (rule lzw_reachable_fill) simp
qed


section \<open>Initialisation and the clear code\<close>

text \<open>
  C7. For every root code size \<open>R\<close> in \<open>[2,11]\<close>, the initialisation of \<open>iwgif_read_image\<close>
  (\<open>lzw_init\<close>, then \<open>lzw_clear\<close>) sets the clear code to \<open>2^R\<close>, the end-of-information code
  to \<open>2^R + 1\<close> and the current code size to \<open>R + 1\<close>. In every reachable state the code
  \<open>2^R\<close> is processed as a clear code: it resets the used count to \<open>2^R + 2\<close> and the code
  size to \<open>R + 1\<close>, clears the previous-code register and leaves the table alone; the next
  code, unless it is again a clear or end-of-information code, is emitted directly and
  only becomes the previous code: the used count and the table stay as they are.
\<close>

theorem lzw_clear_code_resets:
  assumes "2 \<le> R" and "R \<le> 11" and "lzw_reachable R d" and "c \<noteq> 2 ^ R" and "c \<noteq> 2 ^ R + 1"
  shows
    "clear_code (lzw_clear (lzw_init R)) = 2 ^ R \<and>
     eoi_code (lzw_clear (lzw_init R)) = 2 ^ R + 1 \<and>
     current_codesize (lzw_clear (lzw_init R)) = R + 1 \<and>
     lzw_process_code rctx d (2 ^ R) = Ok (rctx, lzw_clear d) \<and>
     ct_used (lzw_clear d) = 2 ^ R + 2 \<and>
     current_codesize (lzw_clear d) = R + 1 \<and>
     oldcode (lzw_clear d) = 0 \<and>
     ct (lzw_clear d) = ct d \<and>
     lzw_process_code rctx' (lzw_clear d) c =
       bind_result (lzw_emit_code rctx' ((lzw_clear d)\<lparr>ncodes_since_clear := 1\<rparr>) c)
         (\<lambda>r. Ok (r, (lzw_clear d)\<lparr>ncodes_since_clear := 1, oldcode := c\<rparr>))"
proof -
  from assms(3) have inv: "lzw_inv R d" by (rule lzw_reachable_inv)
  have init: "clear_code (lzw_clear (lzw_init R)) = 2 ^ R"
    "eoi_code (lzw_clear (lzw_init R)) = 2 ^ R + 1"
    "current_codesize (lzw_clear (lzw_init R)) = R + 1"
    by (simp_all add: lzw_clear_def lzw_init_def)
  from inv have codes: "clear_code d = 2 ^ R" "eoi_code d = 2 ^ R + 1"
    "num_root_codes d = 2 ^ R" "root_codesize d = R"
    by (simp_all add: lzw_inv_def)
  have clear: "lzw_process_code rctx d (2 ^ R) = Ok (rctx, lzw_clear d)"
    using codes by (simp add: lzw_process_code_def)
  have fields: "ct_used (lzw_clear d) = 2 ^ R + 2" "current_codesize (lzw_clear d) = R + 1"
    "oldcode (lzw_clear d) = 0" "ct (lzw_clear d) = ct d"
    using codes by (simp_all add: lzw_clear_def)
  have "clear_code (lzw_clear d) = 2 ^ R" "eoi_code (lzw_clear d) = 2 ^ R + 1"
    "ncodes_since_clear (lzw_clear d) = 0"
    using codes by (simp_all add: lzw_clear_def)
  then have nxt: "lzw_process_code rctx' (lzw_clear d) c =
       bind_result (lzw_emit_code rctx' ((lzw_clear d)\<lparr>ncodes_since_clear := 1\<rparr>) c)
         (\<lambda>r. Ok (r, (lzw_clear d)\<lparr>ncodes_since_clear := 1, oldcode := c\<rparr>))"
    using assms(4,5) by (simp add: lzw_process_code_def Let_def)
  from init clear fields nxt show ?thesis by simp
qed


section \<open>Growth of the code size and the full table\<close>

text \<open>
  C8. An append (\<open>lzw_add_to_dict\<close> with room in the table) raises the used count by one,
  and raises the current code size by exactly one bit when the new used count is one of
  8, 16, 32, 64, 128, 256, 512, 1024, 2048, and leaves it alone at every other append.
  In a reachable state with 4096 used entries the code size is 12; \<open>lzw_add_to_dict\<close>
  returns \<open>-1\<close> and changes nothing; and a code other than the clear and
  end-of-information codes is resident and decodes as before: its run is emitted and it
  becomes the previous code, while the table, the used count and the code size stay.
\<close>

theorem lzw_codesize_growth:
  assumes "lzw_reachable R d" and "c < 2 ^ current_codesize d"
    and "c \<noteq> clear_code d" and "c \<noteq> eoi_code d"
  shows
    "(ct_used d < 4096 \<longrightarrow>
        (\<exists>d'. lzw_add_to_dict d (oldcode d) v = Ok (int (ct_used d), d') \<and>
              ct_used d' = ct_used d + 1 \<and>
              current_codesize d' =
                (if ct_used d' \<in> {8, 16, 32, 64, 128, 256, 512, 1024, 2048}
                 then current_codesize d + 1 else current_codesize d))) \<and>
     (ct_used d = 4096 \<longrightarrow>
        current_codesize d = 12 \<and>
        lzw_add_to_dict d (oldcode d) v = Ok (- 1, d) \<and>
        lzw_process_code rctx d c =
          bind_result (lzw_emit_code rctx (d\<lparr>ncodes_since_clear := ncodes_since_clear d + 1\<rparr>) c)
            (\<lambda>r. Ok (r, d\<lparr>ncodes_since_clear := ncodes_since_clear d + 1, oldcode := c\<rparr>)))"
proof (intro conjI impI)
  from assms(1) have inv: "lzw_inv R d" by (rule lzw_reachable_inv)
  then have old: "oldcode d < 4096" by (simp add: lzw_inv_def)
  {
    assume room: "ct_used d < 4096"
    let ?e = "\<lparr>reference = oldcode d, length_t = length_t (ct d (oldcode d)) + 1, value_t = v,
               firstchar = firstchar (ct d (oldcode d))\<rparr>"
    let ?d1 = "d\<lparr>ct_used := ct_used d + 1, ct := (ct d)(ct_used d := ?e)\<rparr>"
    let ?d' = "if ct_used d \<in> {7, 15, 31, 63, 127, 255, 511, 1023, 2047}
               then ?d1\<lparr>current_codesize := current_codesize ?d1 + 1\<rparr> else ?d1"
    have add: "lzw_add_to_dict d (oldcode d) v = Ok (int (ct_used d), ?d')"
      using room old by (simp add: lzw_add_to_dict_def Let_def)
    have used: "ct_used ?d' = ct_used d + 1" by simp
    have "(ct_used d + 1 \<in> {8, 16, 32, 64, 128, 256, 512, 1024, 2048}) =
        (ct_used d \<in> {7, 15, 31, 63, 127, 255, 511, 1023, 2047})"
      by auto
    then have size: "current_codesize ?d' =
        (if ct_used ?d' \<in> {8, 16, 32, 64, 128, 256, 512, 1024, 2048}
         then current_codesize d + 1 else current_codesize d)"
      by (simp only: used) simp
    from add used size
    show "\<exists>d'. lzw_add_to_dict d (oldcode d) v = Ok (int (ct_used d), d') \<and>
              ct_used d' = ct_used d + 1 \<and>
              current_codesize d' =
                (if ct_used d' \<in> {8, 16, 32, 64, 128, 256, 512, 1024, 2048}
                 then current_codesize d + 1 else current_codesize d)"
      by blast
  }
  {
    assume full: "ct_used d = 4096"
    from inv have "current_codesize d \<le> 12" by (simp add: lzw_inv_def)
    then have "(2::nat) ^ current_codesize d \<le> 2 ^ 12" by (rule power_increasing) simp
    with inv full show "current_codesize d = 12" by (auto simp: lzw_inv_def)
    from full show "lzw_add_to_dict d (oldcode d) v = Ok (- 1, d)"
      by (simp add: lzw_add_to_dict_def)
    from inv assms(2) have c: "c < 4096" by (rule lzw_inv_code_bound)
    from inv full have nz: "ncodes_since_clear d \<noteq> 0"
      using pow2_bounds(2) [of R] by (auto simp: lzw_inv_def)
    let ?d1 = "d\<lparr>ncodes_since_clear := ncodes_since_clear d + 1\<rparr>"
    have "lzw_add_to_dict ?d1 (oldcode ?d1) (firstchar (ct ?d1 c)) = Ok (- 1, ?d1)"
      using full by (simp add: lzw_add_to_dict_def)
    then show "lzw_process_code rctx d c =
          bind_result (lzw_emit_code rctx ?d1 c) (\<lambda>r. Ok (r, ?d1\<lparr>oldcode := c\<rparr>))"
      using assms(3,4) c full nz by (simp add: lzw_process_code_def Let_def)
  }
qed


theorem lzw_codesize_growth_witness:
  "lzw_reachable 2 (lzw_clear (lzw_init 2)) \<and>
   (\<exists>d'. lzw_add_to_dict (lzw_clear (lzw_init 2)) 0 0 = Ok (6, d') \<and> ct_used d' = 7 \<and>
         current_codesize d' = 3) \<and>
   (\<exists>d. lzw_reachable 2 d \<and> ct_used d = 4096 \<and> current_codesize d = 12 \<and>
        lzw_add_to_dict d (oldcode d) 0 = Ok (- 1, d) \<and>
        lzw_process_code (zero_rctx permissive_ctx []) d 0 =
          bind_result
            (lzw_emit_code (zero_rctx permissive_ctx [])
               (d\<lparr>ncodes_since_clear := ncodes_since_clear d + 1\<rparr>) 0)
            (\<lambda>r. Ok (r, d\<lparr>ncodes_since_clear := ncodes_since_clear d + 1, oldcode := 0\<rparr>)))"
proof -
  let ?d0 = "lzw_clear (lzw_init 2)"
  have reach0: "lzw_reachable 2 ?d0"
    by (rule lzw_reachable.start) simp_all
  have fields0: "ct_used ?d0 = 6" "current_codesize ?d0 = 3" "oldcode ?d0 = 0"
    "clear_code ?d0 = 4" "eoi_code ?d0 = 5"
    by (simp_all add: lzw_clear_def lzw_init_def)
  from lzw_codesize_growth [OF reach0, of 0 0 "zero_rctx permissive_ctx []"] fields0
  have part1: "\<exists>d'. lzw_add_to_dict ?d0 0 0 = Ok (6, d') \<and> ct_used d' = 7 \<and>
      current_codesize d' = 3"
    by auto
  obtain d where reach: "lzw_reachable 2 d" and full: "ct_used d = 4096"
    using lzw_full_table_reachable [of 2] by auto
  from reach have "lzw_inv 2 d" by (rule lzw_reachable_inv)
  then have codes: "clear_code d = 4" "eoi_code d = 5" by (simp_all add: lzw_inv_def)
  from lzw_codesize_growth [OF reach, of 0 0 "zero_rctx permissive_ctx []"] codes full
  have part2: "current_codesize d = 12 \<and> lzw_add_to_dict d (oldcode d) 0 = Ok (- 1, d) \<and>
        lzw_process_code (zero_rctx permissive_ctx []) d 0 =
          bind_result
            (lzw_emit_code (zero_rctx permissive_ctx [])
               (d\<lparr>ncodes_since_clear := ncodes_since_clear d + 1\<rparr>) 0)
            (\<lambda>r. Ok (r, d\<lparr>ncodes_since_clear := ncodes_since_clear d + 1, oldcode := 0\<rparr>))"
    by simp
  from reach0 part1 reach full part2 show ?thesis by blast
qed

section \<open>Codes that are not yet in the table\<close>

text \<open>
  The entry that \<open>lzw_process_code\<close> synthesizes for a code that is not in the table, and
  the state after its append.
\<close>

definition lzw_synthesized_entry :: "lzwdeccontext \<Rightarrow> lzw_tableentry" where
  "lzw_synthesized_entry d =
     \<lparr>reference = oldcode d, length_t = length_t (ct d (oldcode d)) + 1,
      value_t = firstchar (ct d (oldcode d)), firstchar = firstchar (ct d (oldcode d))\<rparr>"

definition lzw_after_synthesis :: "lzwdeccontext \<Rightarrow> lzwdeccontext" where
  "lzw_after_synthesis d =
     d\<lparr>ncodes_since_clear := ncodes_since_clear d + 1,
       ct_used := ct_used d + 1,
       ct := (ct d)(ct_used d := lzw_synthesized_entry d),
       current_codesize :=
         (if ct_used d \<in> {7, 15, 31, 63, 127, 255, 511, 1023, 2047}
          then current_codesize d + 1 else current_codesize d)\<rparr>"

lemma lzw_process_code_Failed:
  assumes "lzw_process_code rctx d c = Failed e"
  shows "e = Reported iws_gif_decode_error \<and> c \<noteq> eoi_code d \<and> c \<noteq> clear_code d \<and>
         ncodes_since_clear d \<noteq> 0 \<and> ct_used d \<le> c \<and> ct_used d \<le> oldcode d"
  using assms
  by (auto simp: lzw_process_code_def Let_def bind_result_eq_Failed lzw_emit_code_not_Failed
      lzw_add_to_dict_not_Failed split: if_splits prod.splits)

text \<open>
  C6 (amended). When the decoder reads a code that is not yet resident and that is not the
  first code after a reset: if the previous-code register is itself at or beyond the used
  count, the decoder fails with the decode error; otherwise it appends the entry
  \<open>{parent = previous code, value = firstchar (previous code), length = length (previous
  code) + 1}\<close>, emits that new entry's run and sets the previous code to the code just
  read. The decode error is raised in no other situation.
\<close>

theorem lzw_absent_code:
  assumes "c \<noteq> eoi_code d" and "c \<noteq> clear_code d" and "ncodes_since_clear d \<noteq> 0"
    and "ct_used d \<le> c" and "c < 4096"
  shows
    "(ct_used d \<le> oldcode d \<longrightarrow>
        lzw_process_code rctx d c = Failed (Reported iws_gif_decode_error)) \<and>
     (oldcode d < ct_used d \<longrightarrow>
        lzw_process_code rctx d c =
          bind_result (lzw_emit_code rctx (lzw_after_synthesis d) (ct_used d))
            (\<lambda>r. Ok (r, (lzw_after_synthesis d)\<lparr>oldcode := c\<rparr>))) \<and>
     (lzw_process_code rctx' d' c' = Failed e \<longrightarrow>
        e = Reported iws_gif_decode_error \<and> c' \<noteq> eoi_code d' \<and> c' \<noteq> clear_code d' \<and>
        ncodes_since_clear d' \<noteq> 0 \<and> ct_used d' \<le> c' \<and> ct_used d' \<le> oldcode d')"
proof -
  have a: "lzw_process_code rctx d c = Failed (Reported iws_gif_decode_error)"
    if "ct_used d \<le> oldcode d"
    using assms that by (simp add: lzw_process_code_def Let_def)
  have b: "lzw_process_code rctx d c =
          bind_result (lzw_emit_code rctx (lzw_after_synthesis d) (ct_used d))
            (\<lambda>r. Ok (r, (lzw_after_synthesis d)\<lparr>oldcode := c\<rparr>))"
    if old: "oldcode d < ct_used d"
  proof -
    let ?d1 = "d\<lparr>ncodes_since_clear := ncodes_since_clear d + 1\<rparr>"
    from assms(4,5) have room: "ct_used d < 4096" by simp
    with old have old4096: "oldcode d < 4096" by simp
    have add: "lzw_add_to_dict ?d1 (oldcode ?d1) (firstchar (ct ?d1 (oldcode ?d1))) =
        Ok (int (ct_used d), lzw_after_synthesis d)"
      using room old4096
      by (simp add: lzw_add_to_dict_def Let_def lzw_after_synthesis_def lzw_synthesized_entry_def)
    show ?thesis
      using assms old add by (simp add: lzw_process_code_def Let_def)
  qed
  have c: "e = Reported iws_gif_decode_error \<and> c' \<noteq> eoi_code d' \<and> c' \<noteq> clear_code d' \<and>
        ncodes_since_clear d' \<noteq> 0 \<and> ct_used d' \<le> c' \<and> ct_used d' \<le> oldcode d'"
    if "lzw_process_code rctx' d' c' = Failed e"
    using that by (rule lzw_process_code_Failed)
  from a b c show ?thesis by blast
qed

section \<open>Parent links\<close>

text \<open>
  An entry that is its own parent, with a length of at least 1, makes the loop of
  \<open>lzw_emit_code\<close> run forever when the pixel is recorded without a change of state.
\<close>

lemma lzw_emit_loop_self_parent:
  assumes c: "c < 4096" and self: "reference (ct d c) = c" and len: "1 \<le> length_t (ct d c)"
    and pix: "iwgif_record_pixel rc (unat (value_t (ct d c))) (length_t (ct d c)) = Ok rc"
  shows "lzw_emit_loop rc d c = None"
proof (rule ccontr)
  assume "lzw_emit_loop rc d c \<noteq> None"
  then obtain res where some: "lzw_emit_loop rc d c = Some res" by blast
  have "\<not> (rc = rc \<and> d = d \<and> c = c)"
  proof (rule lzw_emit_loop.raw_induct
      [where P = "\<lambda>rctx' d' c' res. \<not> (rctx' = rc \<and> d' = d \<and> c' = c)", OF _ some])
    fix emit rctx' d' c' res'
    assume IH: "\<And>rctx' d' c' res'. emit rctx' d' c' = Some res' \<Longrightarrow>
        \<not> (rctx' = rc \<and> d' = d \<and> c' = c)"
      and body: "(if 4096 \<le> c' then Some Fault
         else case iwgif_record_pixel rctx' (unat (value_t (ct d' c'))) (length_t (ct d' c')) of
                Ok r \<Rightarrow>
                  if length_t (ct d' c') < 1 then Some (Ok r)
                  else emit r d' (reference (ct d' c'))
              | Failed e \<Rightarrow> Some (Failed e) | Fault \<Rightarrow> Some Fault
              | Diverges \<Rightarrow> Some Diverges) = Some res'"
    show "\<not> (rctx' = rc \<and> d' = d \<and> c' = c)"
    proof
      assume eq: "rctx' = rc \<and> d' = d \<and> c' = c"
      with body c self len pix have "emit rc d c = Some res'" by simp
      from IH [OF this] show False by simp
    qed
  qed
  then show False by simp
qed

lemma lzw_emit_code_self_parent:
  assumes "c < 4096" "reference (ct d c) = c" "1 \<le> length_t (ct d c)"
    "iwgif_record_pixel rc (unat (value_t (ct d c))) (length_t (ct d c)) = Ok rc"
  shows "lzw_emit_code rc d c = Diverges"
  using lzw_emit_loop_self_parent [OF assms] by (simp add: lzw_emit_code_def)

lemma lzw_init_fields:
  "root_codesize (lzw_init R) = R" "current_codesize (lzw_init R) = 0"
  "eoi_flag (lzw_init R) = False" "oldcode (lzw_init R) = 0"
  "pending_code (lzw_init R) = 0" "bits_in_pending_code (lzw_init R) = 0"
  "num_root_codes (lzw_init R) = 2 ^ R" "ncodes_since_clear (lzw_init R) = 0"
  "clear_code (lzw_init R) = 2 ^ R" "eoi_code (lzw_init R) = 2 ^ R + 1"
  "ct_used (lzw_init R) = 0"
  by (simp_all add: lzw_init_def)

section \<open>Running the decoder on a file\<close>

text \<open>
  Each loop of the parser unfolds one iteration at a time, as long as bytes are left.
\<close>

lemma iwgif_read_blocks_step:
  "iodescr rctx \<noteq> [] \<Longrightarrow>
   iwgif_read_blocks uninit rctx =
     (case iwgif_read rctx 1 of
        (False, r1) \<Rightarrow> Failed Unreported
      | (True, r1) \<Rightarrow>
          if rbuf r1 0 = 0x21 then
            (case iwgif_read_extension uninit r1 of
               Ok r2 \<Rightarrow> iwgif_read_blocks uninit r2
             | Failed e \<Rightarrow> Failed e
             | Fault \<Rightarrow> Fault
             | Diverges \<Rightarrow> Diverges)
          else if rbuf r1 0 = 0x2c then iwgif_read_image r1
          else if rbuf r1 0 = 0x3b then Failed (Reported iws_gif_no_image)
          else Failed (Reported iws_gif_unsupported))"
  by (rule iwgif_read_blocks.simps)

lemma iwgif_read_blocks_eof:
  "iodescr rctx = [] \<Longrightarrow> iwgif_read_blocks uninit rctx = Failed Unreported"
  by (subst iwgif_read_blocks.simps) (simp add: iwgif_read_def)

lemma iwgif_read_image_loop_step:
  "iodescr rctx \<noteq> [] \<Longrightarrow>
   iwgif_read_image_loop rctx d =
     (case iwgif_read rctx 1 of
        (False, r1) \<Rightarrow> Failed Unreported
      | (True, r1) \<Rightarrow>
          if rbuf r1 0 = 0 then Ok r1
          else
            (case iwgif_read r1 (unat (rbuf r1 0)) of
               (False, r2) \<Rightarrow> Failed Unreported
             | (True, r2) \<Rightarrow>
                 (case lzw_process_bytes r2 d (map (rbuf r2) [0..<unat (rbuf r1 0)]) of
                    Ok (r3, d3) \<Rightarrow>
                      if eoi_flag d3 then Ok r3
                      else if pixels_set r3 \<ge> total_npixels r3 then Ok r3
                      else iwgif_read_image_loop r3 d3
                  | Failed e \<Rightarrow> Failed e
                  | Fault \<Rightarrow> Fault
                  | Diverges \<Rightarrow> Diverges)))"
  by (rule iwgif_read_image_loop.simps)

lemma iwgif_read_image_loop_eof:
  "iodescr rctx = [] \<Longrightarrow> iwgif_read_image_loop rctx d = Failed Unreported"
  by (subst iwgif_read_image_loop.simps) (simp add: iwgif_read_def)

lemma iwgif_skip_subblocks_step:
  "iodescr rctx \<noteq> [] \<Longrightarrow>
   iwgif_skip_subblocks rctx =
     (case iwgif_read rctx 1 of
        (False, r1) \<Rightarrow> Failed Unreported
      | (True, r1) \<Rightarrow>
          if rbuf r1 0 = 0 then Ok r1
          else
            (case iwgif_read r1 (unat (rbuf r1 0)) of
               (False, r2) \<Rightarrow> Failed Unreported
             | (True, r2) \<Rightarrow> iwgif_skip_subblocks r2))"
  by (rule iwgif_skip_subblocks.simps)

lemma iwgif_skip_subblocks_eof:
  "iodescr rctx = [] \<Longrightarrow> iwgif_skip_subblocks rctx = Failed Unreported"
  by (subst iwgif_skip_subblocks.simps) (simp add: iwgif_read_def)

lemma lzw_emit_loop_root:
  "length_t (ct d c) = 0 \<Longrightarrow> c < 4096 \<Longrightarrow>
   lzw_emit_loop rctx d c =
     (case iwgif_record_pixel rctx (unat (value_t (ct d c))) 0 of
        Ok r \<Rightarrow> Some (Ok r)
      | Failed e \<Rightarrow> Some (Failed e)
      | Fault \<Rightarrow> Some Fault
      | Diverges \<Rightarrow> Some Diverges)"
  by (subst lzw_emit_loop.simps) (simp split: result.splits)

lemma replicate_numeral_unfold:
  "replicate (numeral k) x = x # replicate (pred_numeral k) x"
  by (simp add: numeral_eq_Suc)

lemmas parser_defs =
  iwgif_read_def store_rbuf_def iw_read_uint16le_def iwgif_read_file_header_def
  iwgif_read_screen_descriptor_def iwgif_read_color_table_def read_color_entries_apply
  make_opaque_apply iwgif_read_main_def iwgif_read_graphics_control_ext_def
  iwgif_read_extension_def iwgif_init_screen_def iwgif_make_row_pointers_def
  row_pointer_def sizeof_pointer_def iwgif_read_image_def zero_rctx_def zero_image_def
  zero_rgba_def permissive_ctx_def Let_def replicate_numeral_unfold
  int_product_to_size_t_def
  iwgif_read_blocks_step iwgif_read_blocks_eof iwgif_read_image_loop_step
  iwgif_read_image_loop_eof iwgif_skip_subblocks_step iwgif_skip_subblocks_eof

lemmas lzw_defs =
  lzw_process_bit_def bitmasks_def lzw_process_code_def lzw_add_to_dict_def lzw_clear_def
  lzw_init_fields ct_lzw_init lzw_init_entry_def zero_entry_def lzw_emit_code_def
  lzw_emit_loop_root iwgif_record_pixel_def upt_rec [of 0] upt_rec [of "Suc n" for n]





section \<open>The image descriptor\<close>

text \<open>
  An 8 x 8 screen with an image block whose descriptor has left = 1, top = 5, width = 2,
  height = 3 and whose image data holds the codes clear, 0, end-of-information: one pixel
  of colour 0, which is (10, 11, 12).
\<close>

definition gif_top_five :: "byte list" where
  "gif_top_five =
     [0x47, 0x49, 0x46, 0x38, 0x39, 0x61,
      8, 0, 8, 0, 0x80, 0, 0,
      10, 11, 12, 20, 21, 22,
      0x2c, 1, 0, 5, 0, 2, 0, 3, 0, 0, 2,
      2, 0x44, 0x01,
      0, 0x3b]"

text \<open>
  C1, at a failing input. The descriptor's top field (bytes 2 and 3) is stored into
  \<open>image_height\<close>, which the field at bytes 6 and 7 overwrites; \<open>image_top\<close> is never
  assigned. For the file above the decoder keeps \<open>image_top = 0\<close>, not 5: the rows of the
  image start at the canvas offsets of the screen rows 0, 1, 2, and the one decoded pixel
  is written at column 1 of row 0 (offset 3), while column 1 of row 5 (offset 123) stays
  blank.
\<close>

theorem image_descriptor_top_ignored:
  "\<exists>r px. iwgif_read_main 0 (zero_rctx permissive_ctx gif_top_five) = Ok r \<and>
       image_left r = 1 \<and> image_top r = 0 \<and> image_width r = 2 \<and> image_height r = 3 \<and>
       bpr (img r) = 24 \<and> row_pointers r = Some [3, 27, 51] \<and>
       pixels (img r) = Some px \<and> length px = 192 \<and>
       px ! 3 = 10 \<and> px ! 4 = 11 \<and> px ! 5 = 12 \<and>
       px ! 123 = 0 \<and> px ! 124 = 0 \<and> px ! 125 = 0"
  by (simp add: gif_top_five_def parser_defs lzw_defs)

section \<open>A malformed graphics control extension\<close>

text \<open>
  A 1 x 1 image preceded by a graphics control extension whose terminator byte is 1. The
  image data holds the codes clear, 0, end-of-information.
\<close>

definition gif_bad_gce :: "byte list" where
  "gif_bad_gce =
     [0x47, 0x49, 0x46, 0x38, 0x39, 0x61,
      1, 0, 1, 0, 0x80, 0, 0,
      10, 11, 12, 20, 21, 22,
      0x21, 0xf9, 4, 1, 0, 0, 0, 1,
      0x2c, 0, 0, 0, 0, 1, 0, 1, 0, 0, 2,
      2, 0x44, 0x01,
      0, 0x3b]"

lemma iwgif_read_graphics_control_ext_malformed:
  assumes "iodescr rctx = b0 # b1 # b2 # b3 # b4 # b5 # rest" and "b0 \<noteq> 4 \<or> b5 \<noteq> 0"
  shows "fst (iwgif_read_graphics_control_ext uninit rctx) = uninit"
  using assms
  by (auto simp: iwgif_read_graphics_control_ext_def iwgif_read_def store_rbuf_def)

text \<open>
  C3, at a failing input. For a malformed payload \<open>iwgif_read_graphics_control_ext\<close>
  returns its local \<open>retval\<close>, which was never assigned. When that value is 0, the caller
  takes the extension as failed and the whole decode fails with the read error; only a
  non-zero value lets the decoder go on to the image.
\<close>

theorem malformed_gce_status_is_uninitialised:
  "iw_read_gif_file 0 permissive_ctx gif_bad_gce = Ok (Inl [iws_gif_read_error]) \<and>
   (\<exists>im c. iw_read_gif_file 1 permissive_ctx gif_bad_gce = Ok (Inr (im, c)) \<and>
          pixels im = Some [10, 11, 12])"
  by (simp add: gif_bad_gce_def iw_read_gif_file_def parser_defs lzw_defs)

section \<open>Two contexts of a decode in progress\<close>

text \<open>
  The context after the header of a file with a 2 x 2 screen and a global palette of four
  colours, before any block has been read; and the same context when \<open>iwgif_read_image\<close>
  enters its loop over the subblocks of a 2 x 2 image at the origin (RGB canvas allocated
  and zeroed, row table built). \<open>input\<close> is what is left of the file.
\<close>

definition four_colours :: "nat \<Rightarrow> iw_rgba" where
  "four_colours i =
     \<lparr>rgba_r = of_nat (10 * i), rgba_g = of_nat (10 * i + 1), rgba_b = of_nat (10 * i + 2),
      rgba_a = 255\<rparr>"

definition parsed_header_rctx :: "byte list \<Rightarrow> iwgifreadcontext" where
  "parsed_header_rctx input =
     (zero_rctx permissive_ctx input)
       \<lparr>img := zero_image\<lparr>width := 2, height := 2\<rparr>,
        screen_width := 2, screen_height := 2,
        colortable := \<lparr>num_entries = 4, entry = four_colours\<rparr>\<rparr>"

definition decoding_rctx :: "byte list \<Rightarrow> iwgifreadcontext" where
  "decoding_rctx input =
     (parsed_header_rctx input)
       \<lparr>img := zero_image\<lparr>imgtype := IW_IMGTYPE_RGB, bit_depth := 8, width := 2, height := 2,
                         bpr := 6, pixels := Some (replicate 12 0)\<rparr>,
        image_width := 2, image_height := 2, screen_initialized := True,
        bytes_per_pixel := 3, total_npixels := 4, row_pointers := Some [0, 6]\<rparr>"

lemmas fixture_defs = decoding_rctx_def parsed_header_rctx_def four_colours_def

lemma lzw_emit_loop_step:
  "length_t (ct d c) \<noteq> 0 \<Longrightarrow> c < 4096 \<Longrightarrow>
   lzw_emit_loop rctx d c =
     (case iwgif_record_pixel rctx (unat (value_t (ct d c))) (length_t (ct d c)) of
        Ok r \<Rightarrow> lzw_emit_loop r d (reference (ct d c))
      | Failed e \<Rightarrow> Some (Failed e)
      | Fault \<Rightarrow> Some Fault
      | Diverges \<Rightarrow> Some Diverges)"
  by (subst lzw_emit_loop.simps) (simp split: result.splits)

text \<open>
  The state of the decoder with root code size 2 after the codes 0, 1, 2: the entries 6
  and 7 have been appended and the code size has grown to 4 bits.
\<close>

definition grown_state :: lzwdeccontext where
  "grown_state =
     (lzw_clear (lzw_init 2))
       \<lparr>current_codesize := 4, oldcode := 2, ncodes_since_clear := 3, ct_used := 8,
        ct := (ct (lzw_clear (lzw_init 2)))
                (6 := \<lparr>reference = 0, length_t = 1, value_t = 1, firstchar = 0\<rparr>,
                 7 := \<lparr>reference = 1, length_t = 1, value_t = 2, firstchar = 1\<rparr>)\<rparr>"

lemma grown_state_reachable: "lzw_reachable 2 grown_state"
proof -
  let ?d0 = "lzw_clear (lzw_init 2)"
  let ?d1 = "?d0\<lparr>oldcode := 0, ncodes_since_clear := 1\<rparr>"
  let ?d2 = "?d0\<lparr>oldcode := 1, ncodes_since_clear := 2, ct_used := 7,
      ct := (ct ?d0)(6 := \<lparr>reference = 0, length_t = 1, value_t = 1, firstchar = 0\<rparr>)\<rparr>"
  have r0: "lzw_reachable 2 ?d0" by (rule lzw_reachable.start) simp_all
  have "\<exists>r. lzw_process_code (decoding_rctx []) ?d0 0 = Ok (r, ?d1)"
    by (simp add: fixture_defs parser_defs lzw_defs)
  then obtain ra where s0: "lzw_process_code (decoding_rctx []) ?d0 0 = Ok (ra, ?d1)" by blast
  have r1: "lzw_reachable 2 ?d1"
    by (rule lzw_reachable.code [OF r0 _ s0]) (simp add: lzw_clear_def lzw_init_fields)
  have "\<exists>r. lzw_process_code (decoding_rctx []) ?d1 1 = Ok (r, ?d2)"
    by (simp add: fixture_defs parser_defs lzw_defs)
  then obtain rb where s1: "lzw_process_code (decoding_rctx []) ?d1 1 = Ok (rb, ?d2)" by blast
  have r2: "lzw_reachable 2 ?d2"
    by (rule lzw_reachable.code [OF r1 _ s1]) (simp add: lzw_clear_def lzw_init_fields)
  have "\<exists>r. lzw_process_code (decoding_rctx []) ?d2 2 = Ok (r, grown_state)"
    by (simp add: grown_state_def fixture_defs parser_defs lzw_defs)
  then obtain rc where s2: "lzw_process_code (decoding_rctx []) ?d2 2 = Ok (rc, grown_state)"
    by blast
  show ?thesis
    by (rule lzw_reachable.code [OF r2 _ s2]) (simp add: lzw_clear_def lzw_init_fields)
qed


lemma grown_state_fields:
  "ct_used grown_state = 8" "current_codesize grown_state = 4" "oldcode grown_state = 2"
  "ncodes_since_clear grown_state = 3" "clear_code grown_state = 4" "eoi_code grown_state = 5"
  "root_codesize grown_state = 2" "num_root_codes grown_state = 4"
  by (simp_all add: grown_state_def lzw_clear_def lzw_init_fields)

text \<open>
  C7 at the state after the codes 0, 1, 2, where 8 entries are used at 4 bits: the clear
  code 4 brings the decoder back to 6 entries at 3 bits with the previous code cleared,
  and the next code, 3, is emitted directly: its pixel is written at the first position of
  the canvas and nothing is appended.
\<close>

theorem lzw_clear_code_resets_witness:
  "lzw_reachable 2 grown_state \<and>
   ct_used grown_state = 8 \<and> current_codesize grown_state = 4 \<and> oldcode grown_state = 2 \<and>
   clear_code (lzw_clear (lzw_init 2)) = 4 \<and> eoi_code (lzw_clear (lzw_init 2)) = 5 \<and>
   current_codesize (lzw_clear (lzw_init 2)) = 3 \<and>
   lzw_process_code (decoding_rctx []) grown_state 4 = Ok (decoding_rctx [], lzw_clear grown_state) \<and>
   ct_used (lzw_clear grown_state) = 6 \<and> current_codesize (lzw_clear grown_state) = 3 \<and>
   oldcode (lzw_clear grown_state) = 0 \<and> ct (lzw_clear grown_state) = ct grown_state \<and>
   lzw_process_code (decoding_rctx []) (lzw_clear grown_state) 3 =
     Ok ((decoding_rctx [])
           \<lparr>img := (img (decoding_rctx []))
                   \<lparr>pixels := Some [30, 31, 32, 0, 0, 0, 0, 0, 0, 0, 0, 0]\<rparr>,
            pixels_set := 1\<rparr>,
         (lzw_clear grown_state)\<lparr>ncodes_since_clear := 1, oldcode := 3\<rparr>)"
proof -
  have emit: "lzw_emit_code (decoding_rctx []) ((lzw_clear grown_state)\<lparr>ncodes_since_clear := 1\<rparr>) 3 =
      Ok ((decoding_rctx [])
           \<lparr>img := (img (decoding_rctx []))
                   \<lparr>pixels := Some [30, 31, 32, 0, 0, 0, 0, 0, 0, 0, 0, 0]\<rparr>,
            pixels_set := 1\<rparr>)"
    by (simp add: grown_state_def fixture_defs parser_defs lzw_defs)
  from lzw_clear_code_resets [of 2 grown_state 3 "decoding_rctx []" "decoding_rctx []",
      OF _ _ grown_state_reachable]
  show ?thesis
    using grown_state_reachable grown_state_fields emit by simp
qed

text \<open>
  C6 at two states after a first code. After the first code 7, the code 7 is not resident
  and neither is the previous code: the decode error. After the first code 1, the code 6
  is not resident and the previous code 1 is: entry 6 is appended with parent 1, value 1
  and length 1, its run (colour 1 twice) is written at the pixels 1 and 2, and 6 becomes
  the previous code.
\<close>

theorem lzw_absent_code_witness:
  "lzw_process_code ((decoding_rctx [])\<lparr>pixels_set := 1\<rparr>)
     ((lzw_clear (lzw_init 2))\<lparr>ncodes_since_clear := 1, oldcode := 7\<rparr>) 7 =
     Failed (Reported iws_gif_decode_error) \<and>
   lzw_process_code ((decoding_rctx [])\<lparr>pixels_set := 1\<rparr>)
     ((lzw_clear (lzw_init 2))\<lparr>ncodes_since_clear := 1, oldcode := 1\<rparr>) 6 =
     Ok ((decoding_rctx [])
           \<lparr>img := (img (decoding_rctx []))
                   \<lparr>pixels := Some [0, 0, 0, 10, 11, 12, 10, 11, 12, 0, 0, 0]\<rparr>,
            pixels_set := 3\<rparr>,
         (lzw_clear (lzw_init 2))
           \<lparr>ncodes_since_clear := 2, oldcode := 6, ct_used := 7,
            ct := (ct (lzw_clear (lzw_init 2)))
                    (6 := \<lparr>reference = 1, length_t = 1, value_t = 1, firstchar = 1\<rparr>)\<rparr>)"
proof -
  let ?d0 = "lzw_clear (lzw_init 2)"
  let ?rc = "(decoding_rctx [])\<lparr>pixels_set := 1\<rparr>"
  let ?da = "?d0\<lparr>ncodes_since_clear := 1, oldcode := 7\<rparr>"
  let ?db = "?d0\<lparr>ncodes_since_clear := 1, oldcode := 1\<rparr>"
  have f: "eoi_code ?d0 = 5" "clear_code ?d0 = 4" "ct_used ?d0 = 6"
    by (simp_all add: lzw_clear_def lzw_init_fields)
  from lzw_absent_code [of 7 ?da ?rc] f
  have a: "lzw_process_code ?rc ?da 7 = Failed (Reported iws_gif_decode_error)"
    by simp
  from lzw_absent_code [of 6 ?db ?rc] f
  have b: "lzw_process_code ?rc ?db 6 =
     bind_result (lzw_emit_code ?rc (lzw_after_synthesis ?db) 6)
       (\<lambda>r. Ok (r, (lzw_after_synthesis ?db)\<lparr>oldcode := 6\<rparr>))"
    by simp
  have synth: "(lzw_after_synthesis ?db)\<lparr>oldcode := 6\<rparr> =
      ?d0\<lparr>ncodes_since_clear := 2, oldcode := 6, ct_used := 7,
          ct := (ct ?d0)(6 := \<lparr>reference = 1, length_t = 1, value_t = 1, firstchar = 1\<rparr>)\<rparr>"
    by (simp add: lzw_after_synthesis_def lzw_synthesized_entry_def lzw_clear_def lzw_init_fields
        ct_lzw_init lzw_init_entry_def)
  have emit: "lzw_emit_code ?rc (lzw_after_synthesis ?db) 6 =
      Ok ((decoding_rctx [])
           \<lparr>img := (img (decoding_rctx []))
                   \<lparr>pixels := Some [0, 0, 0, 10, 11, 12, 10, 11, 12, 0, 0, 0]\<rparr>,
            pixels_set := 3\<rparr>)"
    by (simp add: lzw_after_synthesis_def lzw_synthesized_entry_def fixture_defs parser_defs
        lzw_defs lzw_emit_loop_step)
  from a b synth emit show ?thesis by simp
qed


section \<open>Graphics control extensions\<close>

lemma store_rbuf_apply:
  "store_rbuf buf bs i = (if i < length bs then bs ! i else buf i)"
  by (simp add: store_rbuf_def)

lemma iwgif_read_prefix:
  "iodescr rctx = bs @ rest \<Longrightarrow> length bs = n \<Longrightarrow>
   iwgif_read rctx n = (True, rctx\<lparr>iodescr := rest, rbuf := store_rbuf (rbuf rctx) bs\<rparr>)"
  by (simp add: iwgif_read_def)

text \<open>
  What a well-formed payload with flags byte \<open>flags\<close> and index byte \<open>idx\<close> changes in the
  context, besides the byte source and the read buffer.
\<close>

definition after_gce :: "byte \<Rightarrow> byte \<Rightarrow> iwgifreadcontext \<Rightarrow> iwgifreadcontext" where
  "after_gce flags idx rctx =
     (if flags AND 1 \<noteq> 0
      then rctx\<lparr>has_transparency := True, trans_color_index := unat idx,
                colortable := (colortable rctx)
                  \<lparr>entry := (entry (colortable rctx))
                     (unat idx := (entry (colortable rctx) (unat idx))\<lparr>rgba_a := 0\<rparr>)\<rparr>\<rparr>
      else rctx\<lparr>has_transparency := False\<rparr>)"

lemma iwgif_read_graphics_control_ext_wellformed:
  assumes "iodescr rctx = 4 # flags # d1 # d2 # idx # 0 # rest"
  shows "iwgif_read_graphics_control_ext uninit rctx =
     (1, after_gce flags idx
           (rctx\<lparr>iodescr := rest,
                 rbuf := store_rbuf (rbuf rctx) [4, flags, d1, d2, idx, 0]\<rparr>))"
proof -
  have "iwgif_read rctx 6 =
      (True, rctx\<lparr>iodescr := rest, rbuf := store_rbuf (rbuf rctx) [4, flags, d1, d2, idx, 0]\<rparr>)"
    using assms by (intro iwgif_read_prefix) simp_all
  then show ?thesis
    by (simp add: iwgif_read_graphics_control_ext_def after_gce_def store_rbuf_apply Let_def)
qed

lemma iwgif_read_blocks_gce:
  assumes "iodescr rctx = 0x21 # 0xf9 # 4 # flags # d1 # d2 # idx # 0 # rest"
  shows "iwgif_read_blocks uninit rctx =
     iwgif_read_blocks uninit
       (after_gce flags idx
          (rctx\<lparr>iodescr := rest,
                rbuf := store_rbuf (store_rbuf (store_rbuf (rbuf rctx) [0x21]) [0xf9])
                          [4, flags, d1, d2, idx, 0]\<rparr>))"
proof -
  let ?r1 = "rctx\<lparr>iodescr := 0xf9 # 4 # flags # d1 # d2 # idx # 0 # rest,
      rbuf := store_rbuf (rbuf rctx) [0x21]\<rparr>"
  let ?r2 = "?r1\<lparr>iodescr := 4 # flags # d1 # d2 # idx # 0 # rest,
      rbuf := store_rbuf (rbuf ?r1) [0xf9]\<rparr>"
  have rd1: "iwgif_read rctx 1 = (True, ?r1)"
    using assms by (intro iwgif_read_prefix [where bs = "[0x21]"]) simp_all
  have rd2: "iwgif_read ?r1 1 = (True, ?r2)"
    by (intro iwgif_read_prefix [where bs = "[0xf9]"]) simp_all
  have ext: "iwgif_read_extension uninit ?r1 =
      Ok (after_gce flags idx
            (?r2\<lparr>iodescr := rest, rbuf := store_rbuf (rbuf ?r2) [4, flags, d1, d2, idx, 0]\<rparr>))"
    unfolding iwgif_read_extension_def rd2
    by (simp add: store_rbuf_apply
        iwgif_read_graphics_control_ext_wellformed [where rest = rest and flags = flags
          and ?d1.0 = d1 and ?d2.0 = d2 and idx = idx])
  show ?thesis
    by (subst iwgif_read_blocks.simps, unfold rd1) (simp add: ext store_rbuf_apply)
qed

text \<open>
  C9. A well-formed graphics control extension whose transparency flag is set makes the
  decoder record the index byte and zero the alpha of the palette slot at that index,
  whatever \<open>num_entries\<close> is: the index is one of the 256 slots, nothing compares it with
  \<open>num_entries\<close>, the extension reader returns 1 whatever its uninitialised status was, and
  the loop over the blocks goes on with the bytes after the extension.
\<close>

theorem gce_transparency_index_unchecked:
  assumes "iodescr rctx = 0x21 # 0xf9 # 4 # flags # d1 # d2 # idx # 0 # rest"
    and "flags AND 1 \<noteq> 0"
  shows
    "unat idx < 256 \<and>
     iwgif_read_graphics_control_ext uninit
       (rctx\<lparr>iodescr := 4 # flags # d1 # d2 # idx # 0 # rest\<rparr>) =
       (1, rctx\<lparr>iodescr := rest,
                 rbuf := store_rbuf (rbuf rctx) [4, flags, d1, d2, idx, 0],
                 has_transparency := True, trans_color_index := unat idx,
                 colortable := (colortable rctx)
                   \<lparr>entry := (entry (colortable rctx))
                      (unat idx := (entry (colortable rctx) (unat idx))\<lparr>rgba_a := 0\<rparr>)\<rparr>\<rparr>) \<and>
     iwgif_read_blocks uninit rctx =
       iwgif_read_blocks uninit
         (rctx\<lparr>iodescr := rest,
               rbuf := store_rbuf (store_rbuf (store_rbuf (rbuf rctx) [0x21]) [0xf9])
                         [4, flags, d1, d2, idx, 0],
               has_transparency := True, trans_color_index := unat idx,
               colortable := (colortable rctx)
                 \<lparr>entry := (entry (colortable rctx))
                    (unat idx := (entry (colortable rctx) (unat idx))\<lparr>rgba_a := 0\<rparr>)\<rparr>\<rparr>)"
proof -
  have a: "unat idx < 256"
    using unsigned_less [of idx, where 'a = nat] by simp
  have b: "iwgif_read_graphics_control_ext uninit
       (rctx\<lparr>iodescr := 4 # flags # d1 # d2 # idx # 0 # rest\<rparr>) =
       (1, rctx\<lparr>iodescr := rest,
                 rbuf := store_rbuf (rbuf rctx) [4, flags, d1, d2, idx, 0],
                 has_transparency := True, trans_color_index := unat idx,
                 colortable := (colortable rctx)
                   \<lparr>entry := (entry (colortable rctx))
                      (unat idx := (entry (colortable rctx) (unat idx))\<lparr>rgba_a := 0\<rparr>)\<rparr>\<rparr>)"
    using assms(2)
    by (subst iwgif_read_graphics_control_ext_wellformed [where rest = rest and flags = flags
          and ?d1.0 = d1 and ?d2.0 = d2 and idx = idx])
       (simp_all add: after_gce_def)
  have c: "iwgif_read_blocks uninit rctx =
       iwgif_read_blocks uninit
         (rctx\<lparr>iodescr := rest,
               rbuf := store_rbuf (store_rbuf (store_rbuf (rbuf rctx) [0x21]) [0xf9])
                         [4, flags, d1, d2, idx, 0],
               has_transparency := True, trans_color_index := unat idx,
               colortable := (colortable rctx)
                 \<lparr>entry := (entry (colortable rctx))
                    (unat idx := (entry (colortable rctx) (unat idx))\<lparr>rgba_a := 0\<rparr>)\<rparr>\<rparr>)"
    using iwgif_read_blocks_gce [OF assms(1), of uninit] assms(2)
    by (simp add: after_gce_def)
  from a b c show ?thesis by simp
qed


subsection \<open>What the parser keeps\<close>

text \<open>
  Reading bytes changes the byte source and the read buffer; recording pixels changes the
  canvas and the counter of decoded pixels. \<open>kept r r'\<close> says that \<open>r'\<close> differs from \<open>r\<close> in
  nothing else.
\<close>

definition strip_io :: "iwgifreadcontext \<Rightarrow> iwgifreadcontext" where
  "strip_io r = r\<lparr>iodescr := [], rbuf := (\<lambda>i. 0), img := (img r)\<lparr>pixels := None\<rparr>,
                 pixels_set := 0\<rparr>"

definition kept :: "iwgifreadcontext \<Rightarrow> iwgifreadcontext \<Rightarrow> bool" where
  "kept r r' \<longleftrightarrow> strip_io r' = strip_io r"

lemma kept_refl: "kept r r"
  by (simp add: kept_def)

lemma kept_trans: "kept r r' \<Longrightarrow> kept r' r'' \<Longrightarrow> kept r r''"
  by (simp add: kept_def)

lemma frame_eq_kept: "frame_eq r r' \<Longrightarrow> kept r r'"
  unfolding frame_eq_def kept_def strip_pixels_def strip_io_def
  by (cases r, cases r') simp

lemma iwgif_read_kept: "iwgif_read rctx n = (ok, r1) \<Longrightarrow> kept rctx r1"
  by (auto simp: iwgif_read_def kept_def strip_io_def split: if_splits)

lemma kept_fields:
  assumes "kept r r'"
  shows "bytes_per_pixel r' = bytes_per_pixel r" "imgtype (img r') = imgtype (img r)"
    "colortable r' = colortable r" "has_transparency r' = has_transparency r"
    "image_top r' = image_top r" "image_left r' = image_left r"
    "image_width r' = image_width r" "image_height r' = image_height r"
    "total_npixels r' = total_npixels r"
proof -
  from assms have eq: "strip_io r' = strip_io r" by (simp add: kept_def)
  show "bytes_per_pixel r' = bytes_per_pixel r"
    using arg_cong [OF eq, of bytes_per_pixel] by (simp add: strip_io_def)
  show "imgtype (img r') = imgtype (img r)"
    using arg_cong [OF eq, of "\<lambda>r. imgtype (img r)"] by (simp add: strip_io_def)
  show "colortable r' = colortable r"
    using arg_cong [OF eq, of colortable] by (simp add: strip_io_def)
  show "has_transparency r' = has_transparency r"
    using arg_cong [OF eq, of has_transparency] by (simp add: strip_io_def)
  show "image_top r' = image_top r"
    using arg_cong [OF eq, of image_top] by (simp add: strip_io_def)
  show "image_left r' = image_left r"
    using arg_cong [OF eq, of image_left] by (simp add: strip_io_def)
  show "image_width r' = image_width r"
    using arg_cong [OF eq, of image_width] by (simp add: strip_io_def)
  show "image_height r' = image_height r"
    using arg_cong [OF eq, of image_height] by (simp add: strip_io_def)
  show "total_npixels r' = total_npixels r"
    using arg_cong [OF eq, of total_npixels] by (simp add: strip_io_def)
qed

lemma iwgif_read_image_loop_kept:
  "iwgif_read_image_loop rctx d = Ok r \<Longrightarrow> kept rctx r"
proof (induction rctx d rule: iwgif_read_image_loop.induct)
  case (1 rctx d)
  obtain ok r1 where rd1: "iwgif_read rctx 1 = (ok, r1)" by (cases "iwgif_read rctx 1")
  obtain ok2 r2 where rd2: "iwgif_read r1 (unat (rbuf r1 0)) = (ok2, r2)"
    by (cases "iwgif_read r1 (unat (rbuf r1 0))")
  from "1.prems" rd1 have ok
    by (subst (asm) iwgif_read_image_loop.simps) (auto split: bool.splits)
  from rd1 have k1: "kept rctx r1" by (rule iwgif_read_kept)
  from rd2 have k2: "kept r1 r2" by (rule iwgif_read_kept)
  show ?case
  proof (cases "rbuf r1 0 = 0")
    case True
    with "1.prems" rd1 \<open>ok\<close> have "r = r1"
      by (subst (asm) iwgif_read_image_loop.simps) simp
    with k1 show ?thesis by simp
  next
    case False
    let ?xs = "map (rbuf r2) [0..<unat (rbuf r1 0)]"
    from "1.prems" rd1 rd2 \<open>ok\<close> False have ok2
      by (subst (asm) iwgif_read_image_loop.simps) (auto split: bool.splits)
    from "1.prems" rd1 rd2 \<open>ok\<close> \<open>ok2\<close> False obtain r3 d3 where
      bytes: "lzw_process_bytes r2 d ?xs = Ok (r3, d3)"
      and rest: "if eoi_flag d3 \<or> total_npixels r3 \<le> pixels_set r3 then r = r3
                 else iwgif_read_image_loop r3 d3 = Ok r"
      by (subst (asm) iwgif_read_image_loop.simps) (auto split: result.splits if_splits)
    from bytes have "kept r2 r3" by (intro frame_eq_kept lzw_process_bytes_frame)
    with k1 k2 have k3: "kept rctx r3" by (blast intro: kept_trans)
    show ?thesis
    proof (cases "eoi_flag d3 \<or> total_npixels r3 \<le> pixels_set r3")
      case True
      with rest k3 show ?thesis by simp
    next
      case stay: False
      with rest have run: "iwgif_read_image_loop r3 d3 = Ok r" by simp
      with "1.IH" [of ok r1 ok2 r2 "(r3, d3)" r3 d3] rd1 rd2 \<open>ok\<close> \<open>ok2\<close> False bytes stay
      have "kept r3 r" by simp
      with k3 show ?thesis by (rule kept_trans)
    qed
  qed
qed


lemma iwgif_read_color_table_keeps:
  assumes "iwgif_read_color_table r = Ok r'"
  shows "has_transparency r' = has_transparency r \<and> screen_initialized r' = screen_initialized r \<and>
         image_top r' = image_top r \<and> image_left r' = image_left r \<and>
         image_width r' = image_width r \<and> image_height r' = image_height r \<and>
         pixels_set r' = pixels_set r \<and>
         (\<forall>i. rgba_a (entry (colortable r') i) = rgba_a (entry (colortable r) i))"
  using assms
  by (auto simp: iwgif_read_color_table_def iwgif_read_def Let_def read_color_entries_apply
      split: if_splits)

text \<open>
  When \<open>iwgif_read_image\<close> succeeds, \<open>image_left\<close>, \<open>image_width\<close> and \<open>image_height\<close> are
  the fields at the bytes 0, 4 and 6 of the descriptor, and \<open>image_top\<close> is what it was
  before the call, whatever the descriptor holds. The alpha values of the palette are
  untouched. On a context whose screen has not been set up, the number of channels is the
  one that \<open>has_transparency\<close> selects in \<open>iwgif_init_screen\<close>. The result is the result of
  the loop over the subblocks, which starts with the counter of decoded pixels as it was
  and with the budget computed from the width and the height.
\<close>

lemma iwgif_read_image_fields:
  assumes run: "iwgif_read_image r1 = Ok r"
  shows "\<exists>ra r11 d. iwgif_read r1 10 = (True, ra) \<and>
         iwgif_read_image_loop r11 d = Ok r \<and>
         pixels_set r11 = pixels_set r1 \<and>
         total_npixels r11 = int_product_to_size_t (image_width r) (image_height r) \<and>
         total_npixels r = total_npixels r11 \<and>
         image_top r = image_top r1 \<and>
         image_left r = iw_read_uint16le (rbuf ra) 0 \<and>
         image_width r = iw_read_uint16le (rbuf ra) 4 \<and>
         image_height r = iw_read_uint16le (rbuf ra) 6 \<and>
         (\<forall>i. rgba_a (entry (colortable r) i) = rgba_a (entry (colortable r1) i)) \<and>
         (\<not> screen_initialized r1 \<longrightarrow>
            bytes_per_pixel r = (if has_transparency r1 then 4 else 3) \<and>
            imgtype (img r) = (if has_transparency r1 then IW_IMGTYPE_RGBA else IW_IMGTYPE_RGB))"
proof -
  obtain ok ra where rd: "iwgif_read r1 10 = (ok, ra)" by (cases "iwgif_read r1 10")
  from run rd have ok by (auto simp: iwgif_read_image_def split: if_splits)
  from rd have ka: "kept r1 ra" by (rule iwgif_read_kept)
  have sa: "screen_initialized ra = screen_initialized r1" "pixels_set ra = pixels_set r1"
    using rd by (auto simp: iwgif_read_def split: if_splits)
  let ?has_local = "drop_bit 7 (rbuf ra 8) AND 0x01 \<noteq> 0"
  let ?r6 = "ra\<lparr>image_left := iw_read_uint16le (rbuf ra) 0,
      image_width := iw_read_uint16le (rbuf ra) 4,
      image_height := iw_read_uint16le (rbuf ra) 6,
      interlaced := (drop_bit 6 (rbuf ra 8) AND 0x01 \<noteq> 0)\<rparr>"
  let ?r7 = "if ?has_local
      then ?r6\<lparr>colortable := (colortable ?r6)
              \<lparr>num_entries := push_bit (1 + unat (rbuf ?r6 8 AND 0x07)) 1\<rparr>\<rparr>
      else ?r6"
  from run rd \<open>ok\<close> obtain r8 r9 r11 where
    ct: "(if ?has_local then iwgif_read_color_table ?r7 else Ok ?r7) = Ok r8"
    and init: "iwgif_init_screen r8 = Ok r9"
    and rows: "iwgif_make_row_pointers
        (r9\<lparr>total_npixels := int_product_to_size_t (image_width r9) (image_height r9)\<rparr>) = Ok r11"
    and loop: "iwgif_read_image_loop r11 (lzw_clear (lzw_init (unat (rbuf r8 9)))) = Ok r"
    by (auto simp: iwgif_read_image_def Let_def bind_result_eq_Ok split: if_splits)
  have p7: "has_transparency ?r7 = has_transparency r1" "screen_initialized ?r7 = screen_initialized r1"
    "image_top ?r7 = image_top r1"
    "image_left ?r7 = iw_read_uint16le (rbuf ra) 0"
    "image_width ?r7 = iw_read_uint16le (rbuf ra) 4"
    "image_height ?r7 = iw_read_uint16le (rbuf ra) 6"
    "pixels_set ?r7 = pixels_set r1"
    "\<forall>i. rgba_a (entry (colortable ?r7) i) = rgba_a (entry (colortable r1) i)"
    using kept_fields [OF ka] sa by simp_all
  from ct have p8: "has_transparency r8 = has_transparency r1"
    "screen_initialized r8 = screen_initialized r1" "image_top r8 = image_top r1"
    "image_left r8 = iw_read_uint16le (rbuf ra) 0"
    "image_width r8 = iw_read_uint16le (rbuf ra) 4"
    "image_height r8 = iw_read_uint16le (rbuf ra) 6"
    "pixels_set r8 = pixels_set r1"
    "\<forall>i. rgba_a (entry (colortable r8) i) = rgba_a (entry (colortable r1) i)"
    using p7 by (auto split: if_splits dest!: iwgif_read_color_table_keeps)
  from init have p9: "colortable r9 = colortable r8" "image_top r9 = image_top r8"
    "image_left r9 = image_left r8" "image_width r9 = image_width r8"
    "image_height r9 = image_height r8" "pixels_set r9 = pixels_set r8"
    "\<not> screen_initialized r8 \<longrightarrow>
       bytes_per_pixel r9 = (if has_transparency r8 then 4 else 3) \<and>
       imgtype (img r9) = (if has_transparency r8 then IW_IMGTYPE_RGBA else IW_IMGTYPE_RGB)"
    by (auto simp: iwgif_init_screen_def Let_def split: if_splits)
  from rows have p11: "bytes_per_pixel r11 = bytes_per_pixel r9" "imgtype (img r11) = imgtype (img r9)"
    "colortable r11 = colortable r9" "image_top r11 = image_top r9"
    "image_left r11 = image_left r9" "image_width r11 = image_width r9"
    "image_height r11 = image_height r9" "pixels_set r11 = pixels_set r9"
    "total_npixels r11 = int_product_to_size_t (image_width r9) (image_height r9)"
    by (auto simp: iwgif_make_row_pointers_def split: if_splits)
  from loop have "kept r11 r" by (rule iwgif_read_image_loop_kept)
  from kept_fields [OF this] p11 p9 p8 rd \<open>ok\<close> loop show ?thesis
    by (intro exI [of _ ra] exI [of _ r11] exI [of _ "lzw_clear (lzw_init (unat (rbuf r8 9)))"]) simp
qed

lemma iwgif_read_image_channels:
  assumes "iwgif_read_image r1 = Ok r" and "\<not> screen_initialized r1"
  shows "bytes_per_pixel r = (if has_transparency r1 then 4 else 3) \<and>
         imgtype (img r) = (if has_transparency r1 then IW_IMGTYPE_RGBA else IW_IMGTYPE_RGB) \<and>
         (\<forall>i. rgba_a (entry (colortable r) i) = rgba_a (entry (colortable r1) i))"
  using iwgif_read_image_fields [OF assms(1)] assms(2) by blast

subsection \<open>A run of well-formed extensions\<close>

text \<open>
  A well-formed graphics control extension block, from its flags byte, its two delay
  bytes and its index byte; whether its transparency flag is set; its index.
\<close>

definition gce_block :: "byte \<times> byte \<times> byte \<times> byte \<Rightarrow> byte list" where
  "gce_block e = (case e of (flags, d1, d2, idx) \<Rightarrow> [0x21, 0xf9, 4, flags, d1, d2, idx, 0])"

definition gce_flag :: "byte \<times> byte \<times> byte \<times> byte \<Rightarrow> bool" where
  "gce_flag e = (case e of (flags, d1, d2, idx) \<Rightarrow> flags AND 1 \<noteq> 0)"

definition gce_index :: "byte \<times> byte \<times> byte \<times> byte \<Rightarrow> nat" where
  "gce_index e = (case e of (flags, d1, d2, idx) \<Rightarrow> unat idx)"

lemma gce_block_apply: "gce_block (flags, d1, d2, idx) = [0x21, 0xf9, 4, flags, d1, d2, idx, 0]"
  by (simp add: gce_block_def)

lemma after_gce_fields:
  "screen_initialized (after_gce flags idx r) = screen_initialized r"
  "has_transparency (after_gce flags idx r) = (flags AND 1 \<noteq> 0)"
  "iodescr (after_gce flags idx r) = iodescr r"
  "rgba_a (entry (colortable r) i) = 0 \<Longrightarrow> rgba_a (entry (colortable (after_gce flags idx r)) i) = 0"
  "flags AND 1 \<noteq> 0 \<Longrightarrow> rgba_a (entry (colortable (after_gce flags idx r)) (unat idx)) = 0"
  by (simp_all add: after_gce_def)

lemma iwgif_read_blocks_gces:
  assumes "iodescr rctx = concat (map gce_block exts) @ rest"
  shows "\<exists>r'. iwgif_read_blocks uninit rctx = iwgif_read_blocks uninit r' \<and>
      iodescr r' = rest \<and>
      screen_initialized r' = screen_initialized rctx \<and>
      has_transparency r' = (if exts = [] then has_transparency rctx else gce_flag (last exts)) \<and>
      (\<forall>i. rgba_a (entry (colortable rctx) i) = 0 \<longrightarrow> rgba_a (entry (colortable r') i) = 0) \<and>
      (\<forall>e \<in> set exts. gce_flag e \<longrightarrow> rgba_a (entry (colortable r') (gce_index e)) = 0)"
  using assms
proof (induction exts arbitrary: rctx)
  case Nil
  then show ?case by (intro exI [of _ rctx]) simp
next
  case (Cons e es)
  obtain flags d1 d2 idx where e: "e = (flags, d1, d2, idx)" by (cases e) auto
  let ?ra = "after_gce flags idx
      (rctx\<lparr>iodescr := concat (map gce_block es) @ rest,
            rbuf := store_rbuf (store_rbuf (store_rbuf (rbuf rctx) [0x21]) [0xf9])
                      [4, flags, d1, d2, idx, 0]\<rparr>)"
  from Cons.prems e have inp: "iodescr rctx =
      0x21 # 0xf9 # 4 # flags # d1 # d2 # idx # 0 # (concat (map gce_block es) @ rest)"
    by (simp add: gce_block_apply)
  have step: "iwgif_read_blocks uninit rctx = iwgif_read_blocks uninit ?ra"
    using inp by (rule iwgif_read_blocks_gce)
  have "iodescr ?ra = concat (map gce_block es) @ rest" by (simp add: after_gce_fields)
  from Cons.IH [OF this] obtain r' where r':
    "iwgif_read_blocks uninit ?ra = iwgif_read_blocks uninit r'"
    "iodescr r' = rest"
    "screen_initialized r' = screen_initialized ?ra"
    "has_transparency r' = (if es = [] then has_transparency ?ra else gce_flag (last es))"
    "\<forall>i. rgba_a (entry (colortable ?ra) i) = 0 \<longrightarrow> rgba_a (entry (colortable r') i) = 0"
    "\<forall>e \<in> set es. gce_flag e \<longrightarrow> rgba_a (entry (colortable r') (gce_index e)) = 0"
    by blast
  have a: "iwgif_read_blocks uninit rctx = iwgif_read_blocks uninit r'"
    using step r'(1) by simp
  have b: "screen_initialized r' = screen_initialized rctx"
    using r'(3) by (simp add: after_gce_fields)
  have c: "has_transparency r' = gce_flag (last (e # es))"
    using r'(4) e by (simp add: after_gce_fields gce_flag_def)
  have d: "\<forall>i. rgba_a (entry (colortable rctx) i) = 0 \<longrightarrow> rgba_a (entry (colortable r') i) = 0"
    using r'(5) by (simp add: after_gce_fields)
  have "gce_flag e \<longrightarrow> rgba_a (entry (colortable r') (gce_index e)) = 0"
    using r'(5) e by (simp add: after_gce_fields gce_flag_def gce_index_def)
  with r'(6) have f: "\<forall>x \<in> set (e # es). gce_flag x \<longrightarrow> rgba_a (entry (colortable r') (gce_index x)) = 0"
    by simp
  from a r'(2) b c d f show ?case by (intro exI [of _ r']) simp
qed

text \<open>
  C10. When one or more well-formed graphics control extensions come right before the
  image block, the number of channels of the output (3 for RGB, 4 for RGBA) is decided by
  the transparency flag of the last of them alone, and every palette slot that any of
  them named as its transparency index with the flag set has alpha 0 in the end: no later
  extension and nothing in the reading of the image restores an alpha.
\<close>

theorem channels_from_last_gce:
  assumes "iodescr rctx = concat (map gce_block exts) @ 0x2c # rest"
    and "exts \<noteq> []" and "\<not> screen_initialized rctx"
    and "iwgif_read_blocks uninit rctx = Ok r"
  shows
    "bytes_per_pixel r = (if gce_flag (last exts) then 4 else 3) \<and>
     imgtype (img r) = (if gce_flag (last exts) then IW_IMGTYPE_RGBA else IW_IMGTYPE_RGB) \<and>
     (\<forall>e \<in> set exts. gce_flag e \<longrightarrow> rgba_a (entry (colortable r) (gce_index e)) = 0)"
proof -
  from iwgif_read_blocks_gces [OF assms(1), of uninit] assms(2) obtain r' where r':
    "iwgif_read_blocks uninit rctx = iwgif_read_blocks uninit r'"
    "iodescr r' = 0x2c # rest"
    "screen_initialized r' = screen_initialized rctx"
    "has_transparency r' = gce_flag (last exts)"
    "\<forall>e \<in> set exts. gce_flag e \<longrightarrow> rgba_a (entry (colortable r') (gce_index e)) = 0"
    by auto
  let ?r1 = "r'\<lparr>iodescr := rest, rbuf := store_rbuf (rbuf r') [0x2c]\<rparr>"
  have rd: "iwgif_read r' 1 = (True, ?r1)"
    using r'(2) by (intro iwgif_read_prefix [where bs = "[0x2c]"]) simp_all
  have "iwgif_read_blocks uninit r' = iwgif_read_image ?r1"
    by (subst iwgif_read_blocks.simps, unfold rd) (simp add: store_rbuf_apply)
  with assms(4) r'(1) have image: "iwgif_read_image ?r1 = Ok r" by simp
  have fresh: "\<not> screen_initialized ?r1" using r'(3) assms(3) by simp
  from iwgif_read_image_channels [OF image fresh] r'(4,5) show ?thesis by simp
qed


text \<open>
  The bytes of a 2 x 2 image block at the origin with no local palette, whose image data
  holds the codes clear, 0, 1, 2, 3, end-of-information at root code size 2, followed by
  the trailer.
\<close>

definition four_pixel_image :: "byte list" where
  "four_pixel_image =
     [0x2c, 0, 0, 0, 0, 2, 0, 2, 0, 0, 2,
      3, 0x44, 0x34, 0x05,
      0, 0x3b]"

text \<open>
  C9 at a palette of 4 entries and the transparency index 200. The index is accepted:
  slot 200 gets alpha 0, the image block that follows is decoded, here into a canvas of
  four channels, and the decode of the whole file with that extension succeeds as well.
\<close>

theorem gce_transparency_index_unchecked_witness:
  "num_entries (colortable (parsed_header_rctx ([0x21, 0xf9, 4, 1, 0, 0, 200, 0] @ four_pixel_image))) = 4 \<and>
   rgba_a (entry (colortable (parsed_header_rctx ([0x21, 0xf9, 4, 1, 0, 0, 200, 0] @ four_pixel_image))) 200) = 255 \<and>
   fst (iwgif_read_graphics_control_ext 0
          ((parsed_header_rctx ([0x21, 0xf9, 4, 1, 0, 0, 200, 0] @ four_pixel_image))
             \<lparr>iodescr := 4 # 1 # 0 # 0 # 200 # 0 # four_pixel_image\<rparr>)) = 1 \<and>
   (\<exists>r. iwgif_read_blocks 0
          (parsed_header_rctx ([0x21, 0xf9, 4, 1, 0, 0, 200, 0] @ four_pixel_image)) = Ok r \<and>
        has_transparency r \<and> trans_color_index r = 200 \<and>
        num_entries (colortable r) = 4 \<and>
        rgba_a (entry (colortable r) 200) = 0 \<and>
        imgtype (img r) = IW_IMGTYPE_RGBA \<and>
        pixels (img r) =
          Some [0, 1, 2, 255, 10, 11, 12, 255, 20, 21, 22, 255, 30, 31, 32, 255]) \<and>
   (\<exists>r. iwgif_read_main 0
          (zero_rctx permissive_ctx
             ([0x47, 0x49, 0x46, 0x38, 0x39, 0x61, 2, 0, 2, 0, 0x81, 0, 0,
               0, 1, 2, 10, 11, 12, 20, 21, 22, 30, 31, 32,
               0x21, 0xf9, 4, 1, 0, 0, 200, 0] @ four_pixel_image)) = Ok r \<and>
        num_entries (colortable r) = 4 \<and> rgba_a (entry (colortable r) 200) = 0 \<and>
        pixels (img r) =
          Some [0, 1, 2, 255, 10, 11, 12, 255, 20, 21, 22, 255, 30, 31, 32, 255])"
proof -
  let ?rc = "parsed_header_rctx ([0x21, 0xf9, 4, 1, 0, 0, 200, 0] @ four_pixel_image)"
  have inp: "iodescr ?rc = 0x21 # 0xf9 # 4 # 1 # 0 # 0 # 200 # 0 # four_pixel_image"
    by (simp add: fixture_defs zero_rctx_def)
  have flag: "(1 :: byte) AND 1 \<noteq> 0" by simp
  note step = gce_transparency_index_unchecked [OF inp flag, of 0]
  have a: "num_entries (colortable ?rc) = 4" "rgba_a (entry (colortable ?rc) 200) = 255"
    by (simp_all add: fixture_defs zero_rctx_def)
  have b: "fst (iwgif_read_graphics_control_ext 0
      (?rc\<lparr>iodescr := 4 # 1 # 0 # 0 # 200 # 0 # four_pixel_image\<rparr>)) = 1"
    by (subst step [THEN conjunct2, THEN conjunct1]) simp
  have c: "\<exists>r. iwgif_read_blocks 0 ?rc = Ok r \<and>
        has_transparency r \<and> trans_color_index r = 200 \<and>
        num_entries (colortable r) = 4 \<and>
        rgba_a (entry (colortable r) 200) = 0 \<and>
        imgtype (img r) = IW_IMGTYPE_RGBA \<and>
        pixels (img r) =
          Some [0, 1, 2, 255, 10, 11, 12, 255, 20, 21, 22, 255, 30, 31, 32, 255]"
    by (subst step [THEN conjunct2, THEN conjunct2])
       (simp add: four_pixel_image_def fixture_defs parser_defs lzw_defs lzw_emit_loop_step)
  have d: "\<exists>r. iwgif_read_main 0
          (zero_rctx permissive_ctx
             ([0x47, 0x49, 0x46, 0x38, 0x39, 0x61, 2, 0, 2, 0, 0x81, 0, 0,
               0, 1, 2, 10, 11, 12, 20, 21, 22, 30, 31, 32,
               0x21, 0xf9, 4, 1, 0, 0, 200, 0] @ four_pixel_image)) = Ok r \<and>
        num_entries (colortable r) = 4 \<and> rgba_a (entry (colortable r) 200) = 0 \<and>
        pixels (img r) =
          Some [0, 1, 2, 255, 10, 11, 12, 255, 20, 21, 22, 255, 30, 31, 32, 255]"
    by (simp add: four_pixel_image_def parser_defs lzw_defs lzw_emit_loop_step)
  from a b c d show ?thesis by simp
qed


text \<open>
  C10 at two extensions before a 2 x 2 image: the first sets the flag and names the
  index 1, the second has the flag clear. The output has three channels, as the second
  extension says, and slot 1 of the palette keeps the alpha 0 that the first one gave it.
  With the two extensions in the other order the output has four channels, and the pixel
  of colour 1 carries the alpha 0.
\<close>

theorem channels_from_last_gce_witness:
  "(\<exists>r. iwgif_read_blocks 0
          (parsed_header_rctx
             (concat (map gce_block [(1, 0, 0, 1), (0, 0, 0, 0)]) @ four_pixel_image)) = Ok r \<and>
        bytes_per_pixel r = 3 \<and> imgtype (img r) = IW_IMGTYPE_RGB \<and>
        rgba_a (entry (colortable r) 1) = 0 \<and>
        pixels (img r) = Some [0, 1, 2, 10, 11, 12, 20, 21, 22, 30, 31, 32]) \<and>
   (\<exists>r. iwgif_read_blocks 0
          (parsed_header_rctx
             (concat (map gce_block [(0, 0, 0, 0), (1, 0, 0, 1)]) @ four_pixel_image)) = Ok r \<and>
        bytes_per_pixel r = 4 \<and> imgtype (img r) = IW_IMGTYPE_RGBA \<and>
        rgba_a (entry (colortable r) 1) = 0 \<and>
        pixels (img r) =
          Some [0, 1, 2, 255, 10, 11, 12, 0, 20, 21, 22, 255, 30, 31, 32, 255])"
proof -
  let ?tail = "[0, 0, 0, 0, 2, 0, 2, 0, 0, 2, 3, 0x44, 0x34, 0x05, 0, 0x3b] :: byte list"
  let ?ea = "[(1, 0, 0, 1), (0, 0, 0, 0)] :: (byte \<times> byte \<times> byte \<times> byte) list"
  let ?eb = "[(0, 0, 0, 0), (1, 0, 0, 1)] :: (byte \<times> byte \<times> byte \<times> byte) list"
  let ?ra = "parsed_header_rctx (concat (map gce_block ?ea) @ four_pixel_image)"
  let ?rb = "parsed_header_rctx (concat (map gce_block ?eb) @ four_pixel_image)"
  have ia: "iodescr ?ra = concat (map gce_block ?ea) @ 0x2c # ?tail"
    and ib: "iodescr ?rb = concat (map gce_block ?eb) @ 0x2c # ?tail"
    by (simp_all add: fixture_defs zero_rctx_def four_pixel_image_def)
  have fresh: "\<not> screen_initialized ?ra" "\<not> screen_initialized ?rb"
    by (simp_all add: fixture_defs zero_rctx_def)
  have "\<exists>r. iwgif_read_blocks 0 ?ra = Ok r \<and>
      pixels (img r) = Some [0, 1, 2, 10, 11, 12, 20, 21, 22, 30, 31, 32]"
    by (simp add: gce_block_apply four_pixel_image_def fixture_defs parser_defs lzw_defs
        lzw_emit_loop_step)
  then obtain r where r: "iwgif_read_blocks 0 ?ra = Ok r"
    "pixels (img r) = Some [0, 1, 2, 10, 11, 12, 20, 21, 22, 30, 31, 32]"
    by blast
  have "\<exists>r. iwgif_read_blocks 0 ?rb = Ok r \<and>
      pixels (img r) = Some [0, 1, 2, 255, 10, 11, 12, 0, 20, 21, 22, 255, 30, 31, 32, 255]"
    by (simp add: gce_block_apply four_pixel_image_def fixture_defs parser_defs lzw_defs
        lzw_emit_loop_step)
  then obtain r' where r': "iwgif_read_blocks 0 ?rb = Ok r'"
    "pixels (img r') = Some [0, 1, 2, 255, 10, 11, 12, 0, 20, 21, 22, 255, 30, 31, 32, 255]"
    by blast
  from channels_from_last_gce [OF ia _ fresh(1) r(1)]
  have a: "bytes_per_pixel r = 3 \<and> imgtype (img r) = IW_IMGTYPE_RGB \<and>
      rgba_a (entry (colortable r) 1) = 0"
    by (simp add: gce_flag_def gce_index_def)
  from channels_from_last_gce [OF ib _ fresh(2) r'(1)]
  have b: "bytes_per_pixel r' = 4 \<and> imgtype (img r') = IW_IMGTYPE_RGBA \<and>
      rgba_a (entry (colortable r') 1) = 0"
    by (simp add: gce_flag_def gce_index_def)
  from r a r' b show ?thesis by blast
qed

section \<open>The pixel budget\<close>






section \<open>The first code after a reset\<close>

text \<open>
  C6 as stated fails for the first code after a reset: with root code size 2, the first
  code 7 is not resident (6 entries are used) and the previous-code register holds 0, a
  resident code, yet nothing is appended: the decoder emits the unset slot 7, which
  writes colour 0 at the first pixel, keeps 6 used entries and leaves slot 6 unset.
\<close>

theorem lzw_absent_first_code_not_appended:
  "ct_used (lzw_clear (lzw_init 2)) \<le> 7 \<and>
   oldcode (lzw_clear (lzw_init 2)) < ct_used (lzw_clear (lzw_init 2)) \<and>
   lzw_process_code (decoding_rctx []) (lzw_clear (lzw_init 2)) 7 =
     Ok ((decoding_rctx [])
           \<lparr>img := (img (decoding_rctx []))
                   \<lparr>pixels := Some [0, 1, 2, 0, 0, 0, 0, 0, 0, 0, 0, 0]\<rparr>,
            pixels_set := 1\<rparr>,
         (lzw_clear (lzw_init 2))\<lparr>ncodes_since_clear := 1, oldcode := 7\<rparr>) \<and>
   ct_used ((lzw_clear (lzw_init 2))\<lparr>ncodes_since_clear := 1, oldcode := 7\<rparr>) = 6 \<and>
   ct ((lzw_clear (lzw_init 2))\<lparr>ncodes_since_clear := 1, oldcode := 7\<rparr>) 6 = zero_entry"
proof -
  let ?d0 = "lzw_clear (lzw_init 2)"
  have f: "eoi_code ?d0 = 5" "clear_code ?d0 = 4" "ct_used ?d0 = 6" "oldcode ?d0 = 0"
    "ncodes_since_clear ?d0 = 0"
    by (simp_all add: lzw_clear_def lzw_init_fields)
  have z: "ct ?d0 6 = zero_entry" by (simp add: lzw_clear_def ct_lzw_init)
  have emit: "lzw_emit_code (decoding_rctx []) (?d0\<lparr>ncodes_since_clear := 1\<rparr>) 7 =
      Ok ((decoding_rctx [])
           \<lparr>img := (img (decoding_rctx []))
                   \<lparr>pixels := Some [0, 1, 2, 0, 0, 0, 0, 0, 0, 0, 0, 0]\<rparr>,
            pixels_set := 1\<rparr>)"
    by (simp add: fixture_defs parser_defs lzw_defs)
  from f z emit show ?thesis by (simp add: lzw_process_code_def Let_def)
qed

section \<open>An entry that is its own parent\<close>

text \<open>
  A 1 x 1 image whose image data is one subblock with the bytes 0x86, 0x01: the codes 6, 0
  and 6 at 3 bits each.
\<close>

definition gif_self_parent :: "byte list" where
  "gif_self_parent =
     [0x47, 0x49, 0x46, 0x38, 0x39, 0x61,
      1, 0, 1, 0, 0x80, 0, 0,
      10, 11, 12, 20, 21, 22,
      0x2c, 0, 0, 0, 0, 1, 0, 1, 0, 0, 2,
      2, 0x86, 0x01,
      0, 0x3b]"

text \<open>
  C5, at a failing input. With root code size 2 the first code 6 is not in the table (6
  entries are used); \<open>lzw_process_code\<close> emits it unchecked and keeps it as the previous
  code. The next code, 0, appends entry 6 with parent 6: the entry is its own parent. The
  byte 0x06 holds these two codes; on a 2 x 2 image they write two pixels and leave the
  table with that entry. A third code 6 is then resident, and its emission follows the
  parent link forever: the decode of the file \<open>gif_self_parent\<close> never returns.
\<close>

theorem lzw_entry_can_be_its_own_parent:
  "(\<exists>r d. lzw_process_bytes (decoding_rctx []) (lzw_clear (lzw_init 2)) [0x06] = Ok (r, d) \<and>
          pixels_set r = 2 \<and> pixels (img r) = Some [0, 1, 2, 0, 1, 2, 0, 0, 0, 0, 0, 0] \<and>
          ct_used d = 7 \<and> reference (ct d 6) = 6 \<and> length_t (ct d 6) = 1 \<and>
          lzw_reachable 2 d) \<and>
   iwgif_read_main 0 (zero_rctx permissive_ctx gif_self_parent) = Diverges"
proof
  let ?d0 = "lzw_clear (lzw_init 2)"
  let ?d1 = "?d0\<lparr>ncodes_since_clear := 1, oldcode := 6\<rparr>"
  let ?d2 = "?d0\<lparr>ncodes_since_clear := 2, oldcode := 0, ct_used := 7,
      ct := (ct ?d0)(6 := \<lparr>reference = 6, length_t = 1, value_t = 0, firstchar = 0\<rparr>)\<rparr>"
  have r0: "lzw_reachable 2 ?d0" by (rule lzw_reachable.start) simp_all
  let ?ra = "(decoding_rctx [])
      \<lparr>img := (img (decoding_rctx []))\<lparr>pixels := Some [0, 1, 2, 0, 0, 0, 0, 0, 0, 0, 0, 0]\<rparr>,
       pixels_set := 1\<rparr>"
  have s0: "lzw_process_code (decoding_rctx []) ?d0 6 = Ok (?ra, ?d1)"
    by (simp add: fixture_defs parser_defs lzw_defs)
  have r1: "lzw_reachable 2 ?d1"
    by (rule lzw_reachable.code [OF r0 _ s0]) (simp add: lzw_clear_def lzw_init_fields)
  have "\<exists>r. lzw_process_code ?ra ?d1 0 = Ok (r, ?d2)"
    by (simp add: fixture_defs parser_defs lzw_defs)
  then obtain rb where s1: "lzw_process_code ?ra ?d1 0 = Ok (rb, ?d2)" by blast
  have r2: "lzw_reachable 2 ?d2"
    by (rule lzw_reachable.code [OF r1 _ s1]) (simp add: lzw_clear_def lzw_init_fields)
  have r3: "lzw_reachable 2 (?d2\<lparr>pending_code := 0, bits_in_pending_code := 2\<rparr>)"
    using r2 by (rule lzw_reachable.bits)
  have "lzw_process_bytes (decoding_rctx []) ?d0 [0x06] =
      Ok ((decoding_rctx [])
            \<lparr>img := (img (decoding_rctx []))
                    \<lparr>pixels := Some [0, 1, 2, 0, 1, 2, 0, 0, 0, 0, 0, 0]\<rparr>,
             pixels_set := 2\<rparr>,
          ?d2\<lparr>pending_code := 0, bits_in_pending_code := 2\<rparr>)"
    by (simp add: fixture_defs parser_defs lzw_defs lzw_emit_loop_step)
  with r3 show "\<exists>r d. lzw_process_bytes (decoding_rctx []) ?d0 [0x06] = Ok (r, d) \<and>
          pixels_set r = 2 \<and> pixels (img r) = Some [0, 1, 2, 0, 1, 2, 0, 0, 0, 0, 0, 0] \<and>
          ct_used d = 7 \<and> reference (ct d 6) = 6 \<and> length_t (ct d 6) = 1 \<and>
          lzw_reachable 2 d"
    by simp
  show "iwgif_read_main 0 (zero_rctx permissive_ctx gif_self_parent) = Diverges"
    by (simp add: gif_self_parent_def parser_defs lzw_defs lzw_emit_loop_self_parent)
qed

end
